theory Spec2Isabelle
  imports Complex_Main "HOL-Library.Word" "HOL-Library.While_Combinator"
begin
section \<open>Arrays, errors and file names\<close>

text \<open>
  The repository is two batch scripts around OpenCV, NumPy, SciPy, scikit-image and numpy-stl:
  \<^verbatim>\<open>binarization.py\<close> (one grey-level slice to one black-and-white mask) and
  \<^verbatim>\<open>convert_binarization_to_stl.py\<close> (masks to volume, repaired volume, surface, STL).
  A NumPy array is a nested list in row-major order, an unsigned byte an 8-bit word, and every
  exception a script can die of a value of \<open>error\<close>.
\<close>

type_synonym uint8 = "8 word"
type_synonym image = "uint8 list list"
type_synonym 'a array3 = "'a list list list"

definition height :: "'a list list \<Rightarrow> nat" where
  "height img = length img"

definition width :: "'a list list \<Rightarrow> nat" where
  "width img = (case img of [] \<Rightarrow> 0 | r # _ \<Rightarrow> length r)"

definition shape2 :: "'a list list \<Rightarrow> nat \<times> nat" where
  "shape2 img = (height img, width img)"

definition rect2 :: "'a list list \<Rightarrow> bool" where
  "rect2 img = list_all (\<lambda>row. length row = width img) img"

definition tabulate2 :: "nat \<Rightarrow> nat \<Rightarrow> (nat \<Rightarrow> nat \<Rightarrow> 'a) \<Rightarrow> 'a list list" where
  "tabulate2 h w f = map (\<lambda>y. map (\<lambda>x. f y x) [0..<w]) [0..<h]"

definition shape3 :: "'a array3 \<Rightarrow> nat \<times> nat \<times> nat" where
  "shape3 v =
     (length v,
      (case v of [] \<Rightarrow> 0 | plane # _ \<Rightarrow> length plane),
      (case v of [] \<Rightarrow> 0 | plane # _ \<Rightarrow> (case plane of [] \<Rightarrow> 0 | row # _ \<Rightarrow> length row)))"

definition map3 :: "('a \<Rightarrow> 'b) \<Rightarrow> 'a array3 \<Rightarrow> 'b array3" where
  "map3 f v = map (map (map f)) v"

definition flatten3 :: "'a array3 \<Rightarrow> 'a list" where
  "flatten3 v = concat (concat v)"

datatype error =
    ValueError_invalid_literal string
  | RuntimeError_no_images
  | AttributeError_NoneType_shape string
  | CvError_resize_empty string
  | ValueError_inhomogeneous_shape
  | ValueError_volume_too_small
  | ValueError_level_out_of_range
  | ValueError_step_size
  | RuntimeError_no_surface
  | IndexError_vertex int

subsection \<open>os.path and int()\<close>

definition basename :: "string \<Rightarrow> string" where
  "basename p = rev (takeWhile (\<lambda>c. c \<noteq> CHR ''/'') (rev p))"

text \<open>
  \<^verbatim>\<open>os.path.splitext\<close>: the extension starts at the last dot of the last path component,
  unless only dots stand before it in that component.
\<close>

definition splitext :: "string \<Rightarrow> string \<times> string" where
  "splitext p =
     (let name = basename p;
          ext = rev (takeWhile (\<lambda>c. c \<noteq> CHR ''.'') (rev name));
          stem_len = length name - length ext - 1
      in if CHR ''.'' \<in> set name \<and> list_ex (\<lambda>c. c \<noteq> CHR ''.'') (take stem_len name)
         then (take (length p - length ext - 1) p, drop (length p - length ext - 1) p)
         else (p, []))"

definition path_join :: "string \<Rightarrow> string \<Rightarrow> string" where
  "path_join d f = d @ ''/'' @ f"

definition upper_char :: "char \<Rightarrow> char" where
  "upper_char c =
     (case map_of (zip ''abcdefghijklmnopqrstuvwxyz'' ''ABCDEFGHIJKLMNOPQRSTUVWXYZ'') c of
        None \<Rightarrow> c | Some u \<Rightarrow> u)"

definition str_upper :: "string \<Rightarrow> string" where
  "str_upper s = map upper_char s"

definition is_space :: "char \<Rightarrow> bool" where
  "is_space c = (let n = (of_char c :: nat) in (9 \<le> n \<and> n \<le> 13) \<or> (28 \<le> n \<and> n \<le> 32))"

definition is_digit :: "char \<Rightarrow> bool" where
  "is_digit c = (let n = (of_char c :: nat) in 48 \<le> n \<and> n \<le> 57)"

definition str_strip :: "string \<Rightarrow> string" where
  "str_strip s = rev (dropWhile is_space (rev (dropWhile is_space s)))"

text \<open>
  The digits of a decimal literal, most significant first; a single underscore may stand
  between two digits, as in \<^verbatim>\<open>int("1_000")\<close>.
\<close>

fun parse_digits :: "string \<Rightarrow> nat \<Rightarrow> nat option" where
  "parse_digits [] acc = Some acc"
| "parse_digits (c # cs) acc =
     (if is_digit c then parse_digits cs (10 * acc + (of_char c - 48))
      else if c = CHR ''_'' then
        (case cs of [] \<Rightarrow> None
         | d # ds \<Rightarrow> if is_digit d then parse_digits cs acc else None)
      else None)"

text \<open>
  \<^verbatim>\<open>int(s)\<close> on an ASCII string: surrounding white space is dropped, one sign is allowed,
  then a digit must follow. \<open>None\<close> is the \<^verbatim>\<open>ValueError\<close>.
\<close>

definition py_int :: "string \<Rightarrow> int option" where
  "py_int s =
     (let t = str_strip s;
          neg = (case t of [] \<Rightarrow> False | c # _ \<Rightarrow> c = CHR ''-'');
          u = (case t of [] \<Rightarrow> [] | c # r \<Rightarrow> if c = CHR ''-'' \<or> c = CHR ''+'' then r else t)
      in case u of [] \<Rightarrow> None
         | c # _ \<Rightarrow>
             if is_digit c
             then map_option (\<lambda>n. if neg then - int n else int n) (parse_digits u 0)
             else None)"

section \<open>VolumeAssembler (convert\_binarization\_to\_stl.py, lines 11 to 46)\<close>

text \<open>
  What the script reads from the outside world: the matches of a glob pattern, the grey-level
  image decoded from a path (\<open>None\<close> when OpenCV cannot read it), and the source index that
  nearest-neighbour resizing picks for a destination index (OpenCV computes it in double
  precision from the two sizes; nothing below depends on which index it is).
\<close>

record env =
  glob :: "string \<Rightarrow> string list"
  imread :: "string \<Rightarrow> image option"
  nearest :: "nat \<Rightarrow> nat \<Rightarrow> nat \<Rightarrow> nat"

definition input_dir :: string where
  "input_dir = ''output_binarization''"

definition resize_ratio :: rat where
  "resize_ratio = 9 / 10"

definition extensions :: "string list" where
  "extensions = [''*.png'', ''*.jpg'', ''*.jpeg'', ''*.bmp'', ''*.tif'', ''*.tiff'']"

definition collect_files :: "env \<Rightarrow> string list" where
  "collect_files e =
     concat (map (\<lambda>ext. glob e (path_join input_dir ext) @ glob e (path_join input_dir (str_upper ext)))
               extensions)"

definition slice_index :: "string \<Rightarrow> int option" where
  "slice_index x = py_int (fst (splitext (basename x)))"

text \<open>
  \<^verbatim>\<open>files.sort(key=...)\<close> computes every key first, so one file name that is not a number
  stops the script there; the sort itself is stable.
\<close>

definition sort_by_keys :: "int list \<Rightarrow> string list \<Rightarrow> string list" where
  "sort_by_keys ks fs = map snd (sort_key fst (zip ks fs))"

definition sort_files :: "string list \<Rightarrow> error + string list" where
  "sort_files fs =
     (case those (map slice_index fs) of
        None \<Rightarrow> Inl (ValueError_invalid_literal (hd (filter (\<lambda>f. slice_index f = None) fs)))
      | Some ks \<Rightarrow> Inr (sort_by_keys ks fs))"

definition scaled :: "nat \<Rightarrow> nat" where
  "scaled n = nat \<lfloor>of_nat n * resize_ratio\<rfloor>"

text \<open>
  \<^verbatim>\<open>cv2.resize(img, (w', h'), interpolation=cv2.INTER_NEAREST)\<close>: an empty destination size is
  an OpenCV error; otherwise every destination pixel copies one source pixel, the index
  clamped to the last row and column.
\<close>

definition cv2_resize_nearest :: "(nat \<Rightarrow> nat \<Rightarrow> nat \<Rightarrow> nat) \<Rightarrow> image \<Rightarrow> nat \<times> nat \<Rightarrow> error + image" where
  "cv2_resize_nearest sel img dsize =
     (case dsize of (w', h') \<Rightarrow>
        if w' = 0 \<or> h' = 0 then Inl (CvError_resize_empty ''dsize'')
        else Inr (tabulate2 h' w'
               (\<lambda>y x. img ! min (sel (height img) h' y) (height img - 1)
                           ! min (sel (width img) w' x) (width img - 1))))"

definition load_resized :: "env \<Rightarrow> string \<Rightarrow> error + image" where
  "load_resized e file_path =
     (case imread e file_path of
        None \<Rightarrow> Inl (AttributeError_NoneType_shape file_path)
      | Some img \<Rightarrow>
          if resize_ratio < 1
          then cv2_resize_nearest (nearest e) img (scaled (width img), scaled (height img))
          else Inr img)"

text \<open>\<^verbatim>\<open>(img == 255).astype(np.uint8)\<close>\<close>

definition white_to_one :: "image \<Rightarrow> image" where
  "white_to_one img = map (map (\<lambda>p. if p = 255 then 1 else 0)) img"

fun load_volume :: "env \<Rightarrow> string list \<Rightarrow> error + image list" where
  "load_volume e [] = Inr []"
| "load_volume e (f # fs) =
     (case load_resized e f of
        Inl err \<Rightarrow> Inl err
      | Inr img \<Rightarrow>
          (case load_volume e fs of
             Inl err \<Rightarrow> Inl err
           | Inr vol \<Rightarrow> Inr (white_to_one img # vol)))"

text \<open>
  \<^verbatim>\<open>np.array(volume)\<close> on a list of two-dimensional arrays (NumPy 1.24 and later): one
  three-dimensional array when all shapes agree, a \<^verbatim>\<open>ValueError\<close> otherwise.
\<close>

definition np_array :: "'a list list list \<Rightarrow> error + 'a array3" where
  "np_array ms =
     (if list_all (\<lambda>m. shape2 m = shape2 (hd ms)) ms then Inr ms
      else Inl ValueError_inhomogeneous_shape)"

definition VolumeAssembler :: "env \<Rightarrow> error + uint8 array3" where
  "VolumeAssembler e =
     (case sort_files (collect_files e) of
        Inl err \<Rightarrow> Inl err
      | Inr files \<Rightarrow>
          if files = [] then Inl RuntimeError_no_images
          else (case load_volume e files of
                  Inl err \<Rightarrow> Inl err
                | Inr vol \<Rightarrow> np_array vol))"

section \<open>SliceBinarizer (binarization.py)\<close>

text \<open>
  Three OpenCV results are taken as they come, since their values are not what the
  properties below rest on: the Otsu threshold of an image (a whole number between 0 and 255,
  found by a search in double precision), the labelling of the 8-connected components with
  the pixel count of each label, and, for every outer contour that \<^verbatim>\<open>cv2.findContours\<close>
  returns, the set of pixels that \<^verbatim>\<open>cv2.drawContours\<close> paints for it.
\<close>

record cv2 =
  otsu :: "image \<Rightarrow> nat"
  connectedComponentsWithStats :: "image \<Rightarrow> nat \<times> (nat \<Rightarrow> nat \<Rightarrow> nat) \<times> (nat \<Rightarrow> nat)"
  findContours_external :: "image \<Rightarrow> (nat \<Rightarrow> nat \<Rightarrow> bool) list"

definition MIN_AREA :: nat where
  "MIN_AREA = 70"

definition output_dir :: string where
  "output_dir = ''output_binarization''"

definition map_index2 :: "(nat \<Rightarrow> nat \<Rightarrow> 'a \<Rightarrow> 'b) \<Rightarrow> 'a list list \<Rightarrow> 'b list list" where
  "map_index2 f img =
     map (\<lambda>(y, row). map (\<lambda>(x, p). f y x p) (enumerate 0 row)) (enumerate 0 img)"

text \<open>
  \<^verbatim>\<open>cv2.threshold(src, thresh, maxval, cv2.THRESH_BINARY)\<close> on bytes: \<open>maxval\<close> where the
  pixel is greater than the threshold, 0 elsewhere.
\<close>

definition cv2_threshold_binary :: "image \<Rightarrow> nat \<Rightarrow> uint8 \<Rightarrow> image" where
  "cv2_threshold_binary src thresh maxval = map (map (\<lambda>p. if thresh < unat p then maxval else 0)) src"

definition threshold_val :: "cv2 \<Rightarrow> image \<Rightarrow> nat" where
  "threshold_val cv img = min (otsu cv img + 59) 255"

definition initial_mask :: "cv2 \<Rightarrow> image \<Rightarrow> image" where
  "initial_mask cv img = cv2_threshold_binary img (threshold_val cv img) 255"

text \<open>\<^verbatim>\<open>binary[labels == i] = 0\<close>\<close>

definition clear_label :: "(nat \<Rightarrow> nat \<Rightarrow> nat) \<Rightarrow> nat \<Rightarrow> image \<Rightarrow> image" where
  "clear_label labels i binary = map_index2 (\<lambda>y x p. if labels y x = i then 0 else p) binary"

definition remove_noise :: "cv2 \<Rightarrow> image \<Rightarrow> image" where
  "remove_noise cv binary =
     (case connectedComponentsWithStats cv binary of
        (num_labels, labels, area) \<Rightarrow>
          fold (\<lambda>i b. if area i < MIN_AREA then clear_label labels i b else b)
               [1..<num_labels] binary)"

text \<open>
  \<^verbatim>\<open>cv2.getStructuringElement(cv2.MORPH_RECT, (3, 3))\<close>, and the offsets of the non-zero
  entries of a kernel from its anchor, the centre.
\<close>

definition MORPH_RECT :: "nat \<times> nat \<Rightarrow> uint8 list list" where
  "MORPH_RECT ksize = (case ksize of (w, h) \<Rightarrow> replicate h (replicate w 1))"

definition kernel_offsets :: "uint8 list list \<Rightarrow> (int \<times> int) list" where
  "kernel_offsets k =
     concat (map (\<lambda>i. concat (map (\<lambda>j. if k ! i ! j \<noteq> 0
                                          then [(int i - int (height k div 2), int j - int (width k div 2))]
                                          else [])
                                  [0..<width k]))
               [0..<height k])"

text \<open>The pixels of the image under the kernel placed at \<open>(y, x)\<close>; what falls outside is left out.\<close>

definition under_kernel :: "image \<Rightarrow> (int \<times> int) list \<Rightarrow> nat \<Rightarrow> nat \<Rightarrow> uint8 list" where
  "under_kernel src offs y x =
     concat (map (\<lambda>(dy, dx).
                if 0 \<le> int y + dy \<and> int y + dy < int (height src) \<and>
                   0 \<le> int x + dx \<and> int x + dx < int (width src)
                then [src ! nat (int y + dy) ! nat (int x + dx)] else [])
             offs)"

text \<open>
  \<^verbatim>\<open>cv2.dilate\<close> and \<^verbatim>\<open>cv2.erode\<close> with the default border: the maximum, or the minimum, of
  the pixels under the kernel, applied \<open>iterations\<close> times.
\<close>

definition dilate_once :: "uint8 list list \<Rightarrow> image \<Rightarrow> image" where
  "dilate_once kern src =
     map_index2 (\<lambda>y x p. fold max (under_kernel src (kernel_offsets kern) y x) 0) src"

definition erode_once :: "uint8 list list \<Rightarrow> image \<Rightarrow> image" where
  "erode_once kern src =
     map_index2 (\<lambda>y x p. fold min (under_kernel src (kernel_offsets kern) y x) 255) src"

definition cv2_dilate :: "image \<Rightarrow> uint8 list list \<Rightarrow> nat \<Rightarrow> image" where
  "cv2_dilate src kern iterations = (dilate_once kern ^^ iterations) src"

definition cv2_erode :: "image \<Rightarrow> uint8 list list \<Rightarrow> nat \<Rightarrow> image" where
  "cv2_erode src kern iterations = (erode_once kern ^^ iterations) src"

text \<open>\<^verbatim>\<open>cv2.drawContours(img, [cnt], -2, 255, thickness=cv2.FILLED)\<close>, in place.\<close>

definition drawContours_filled :: "(nat \<Rightarrow> nat \<Rightarrow> bool) \<Rightarrow> uint8 \<Rightarrow> image \<Rightarrow> image" where
  "drawContours_filled cnt color img = map_index2 (\<lambda>y x p. if cnt y x then color else p) img"

definition fill_contours :: "cv2 \<Rightarrow> image \<Rightarrow> image" where
  "fill_contours cv binary_dilated =
     fold (\<lambda>cnt img. drawContours_filled cnt 255 img) (findContours_external cv binary_dilated)
          binary_dilated"

definition binarize :: "cv2 \<Rightarrow> image \<Rightarrow> image" where
  "binarize cv img =
     (let binary = remove_noise cv (initial_mask cv img);
          kern = MORPH_RECT (3, 3);
          binary_dilated = cv2_dilate binary kern 2;
          binary_dilated = fill_contours cv binary_dilated;
          binary_filled = cv2_erode binary_dilated kern 2
      in binary_filled)"

text \<open>
  The loop over the files: a file that OpenCV cannot read is skipped, every other one gives
  one mask, written under the name of its source.
\<close>

definition SliceBinarizer :: "cv2 \<Rightarrow> (string \<Rightarrow> image option) \<Rightarrow> string list \<Rightarrow> (string \<times> image) list" where
  "SliceBinarizer cv read files =
     concat (map (\<lambda>file_path.
                case read file_path of
                  None \<Rightarrow> []
                | Some img \<Rightarrow> [(path_join output_dir (basename file_path), binarize cv img)])
             files)"

text \<open>A mask holds the two values 0 and 255 only.\<close>

definition binary_valued :: "image \<Rightarrow> bool" where
  "binary_valued img = list_all (list_all (\<lambda>p. p = 0 \<or> p = 255)) img"

definition mask_of_shape :: "nat \<times> nat \<Rightarrow> image \<Rightarrow> bool" where
  "mask_of_shape s img \<longleftrightarrow> shape2 img = s \<and> rect2 img \<and> binary_valued img"

section \<open>TopologyRepairer (convert\_binarization\_to\_stl.py, lines 48 to 52)\<close>

text \<open>
  SciPy's binary morphology on three-dimensional arrays. A voxel is addressed by integer
  coordinates, so that a neighbour of a voxel on the boundary has an address too; reading
  outside the array gives the border value of the operation.
\<close>

type_synonym coord = "int \<times> int \<times> int"

definition in_bounds :: "nat \<times> nat \<times> nat \<Rightarrow> coord \<Rightarrow> bool" where
  "in_bounds s p =
     (case (s, p) of ((d, h, w), (z, y, x)) \<Rightarrow>
        0 \<le> z \<and> z < int d \<and> 0 \<le> y \<and> y < int h \<and> 0 \<le> x \<and> x < int w)"

definition at3 :: "'a array3 \<Rightarrow> 'a \<Rightarrow> coord \<Rightarrow> 'a" where
  "at3 v border p =
     (if in_bounds (shape3 v) p then (case p of (z, y, x) \<Rightarrow> v ! nat z ! nat y ! nat x)
      else border)"

definition tabulate3 :: "nat \<times> nat \<times> nat \<Rightarrow> (coord \<Rightarrow> 'a) \<Rightarrow> 'a array3" where
  "tabulate3 s f =
     (case s of (d, h, w) \<Rightarrow>
        map (\<lambda>z. map (\<lambda>y. map (\<lambda>x. f (int z, int y, int x)) [0..<w]) [0..<h]) [0..<d])"

definition add3 :: "coord \<Rightarrow> coord \<Rightarrow> coord" where
  "add3 p q = (case (p, q) of ((z, y, x), (dz, dy, dx)) \<Rightarrow> (z + dz, y + dy, x + dx))"

definition sub3 :: "coord \<Rightarrow> coord \<Rightarrow> coord" where
  "sub3 p q = (case (p, q) of ((z, y, x), (dz, dy, dx)) \<Rightarrow> (z - dz, y - dy, x - dx))"

text \<open>
  \<^verbatim>\<open>generate_binary_structure(3, connectivity)\<close>, as the list of the offsets from the centre
  at which the 3 by 3 by 3 structuring element is true: those whose coordinates differ from
  the centre in at most \<open>connectivity\<close> places. Connectivity 1 gives the centre and its 6 face
  neighbours, connectivity 3 all 27 voxels of the cube.
\<close>

definition generate_binary_structure :: "nat \<Rightarrow> coord list" where
  "generate_binary_structure connectivity =
     filter (\<lambda>(dz, dy, dx). nat (\<bar>dz\<bar> + \<bar>dy\<bar> + \<bar>dx\<bar>) \<le> connectivity)
       (concat (map (\<lambda>dz. concat (map (\<lambda>dy. map (\<lambda>dx. (dz, dy, dx)) [- 1, 0, 1]) [- 1, 0, 1]))
                  [- 1, 0, 1]))"

definition masked :: "bool array3 option \<Rightarrow> coord \<Rightarrow> bool" where
  "masked msk p = (case msk of None \<Rightarrow> True | Some m \<Rightarrow> at3 m False p)"

text \<open>
  One pass of dilation: a voxel becomes true when the structuring element centred on some
  true voxel covers it. One pass of erosion: a voxel stays true when the structuring element
  centred on it covers true voxels only. Where a mask is given and is false, the voxel keeps
  its value.
\<close>

definition dilation_step :: "coord list \<Rightarrow> bool array3 option \<Rightarrow> bool \<Rightarrow> bool array3 \<Rightarrow> bool array3" where
  "dilation_step struct msk border_value input =
     tabulate3 (shape3 input)
       (\<lambda>p. if masked msk p then list_ex (\<lambda>q. at3 input border_value (sub3 p q)) struct
            else at3 input border_value p)"

definition erosion_step :: "coord list \<Rightarrow> bool array3 option \<Rightarrow> bool \<Rightarrow> bool array3 \<Rightarrow> bool array3" where
  "erosion_step struct msk border_value input =
     tabulate3 (shape3 input)
       (\<lambda>p. if masked msk p then list_all (\<lambda>q. at3 input border_value (add3 p q)) struct
            else at3 input border_value p)"

text \<open>
  \<^verbatim>\<open>iterations\<close>: the pass is repeated that many times; if the number is less than 1, it is
  repeated until a pass changes nothing. \<open>None\<close> stands for a loop that never ends.
\<close>

definition repeat_pass :: "int \<Rightarrow> ('a \<Rightarrow> 'a) \<Rightarrow> 'a \<Rightarrow> 'a option" where
  "repeat_pass iterations pass input =
     (if 1 \<le> iterations then Some ((pass ^^ nat iterations) input)
      else while_option (\<lambda>v. pass v \<noteq> v) pass input)"

definition default_structure :: "coord list option \<Rightarrow> coord list" where
  "default_structure struct = (case struct of None \<Rightarrow> generate_binary_structure 1 | Some s \<Rightarrow> s)"

definition binary_dilation ::
  "bool array3 \<Rightarrow> coord list option \<Rightarrow> int \<Rightarrow> bool array3 option \<Rightarrow> bool \<Rightarrow> bool array3 option" where
  "binary_dilation input struct iterations msk border_value =
     repeat_pass iterations (dilation_step (default_structure struct) msk border_value) input"

definition binary_erosion ::
  "bool array3 \<Rightarrow> coord list option \<Rightarrow> int \<Rightarrow> bool array3 option \<Rightarrow> bool \<Rightarrow> bool array3 option" where
  "binary_erosion input struct iterations msk border_value =
     repeat_pass iterations (erosion_step (default_structure struct) msk border_value) input"

text \<open>\<^verbatim>\<open>binary_closing\<close>: dilation, then erosion, both with border value 0 and no mask.\<close>

definition binary_closing :: "bool array3 \<Rightarrow> coord list option \<Rightarrow> int \<Rightarrow> bool array3 option" where
  "binary_closing input struct iterations =
     (case binary_dilation input struct iterations None False of
        None \<Rightarrow> None
      | Some tmp \<Rightarrow> binary_erosion tmp struct iterations None False)"

text \<open>
  \<^verbatim>\<open>binary_fill_holes(input)\<close>, called without a structuring element: starting from an array
  of zeros, the complement of the input is flooded from outside the array (border value 1)
  with the default structuring element until nothing changes; the holes are what the flood
  has not reached.
\<close>

definition binary_fill_holes :: "bool array3 \<Rightarrow> bool array3 option" where
  "binary_fill_holes input =
     (let msk = map3 Not input;
          tmp = tabulate3 (shape3 msk) (\<lambda>p. False)
      in map_option (map3 Not) (binary_dilation tmp None (- 1) (Some msk) True))"

definition close_iterations :: int where
  "close_iterations = 2"

definition closed_volume :: "uint8 array3 \<Rightarrow> bool array3 option" where
  "closed_volume volume =
     (let struct = generate_binary_structure 3
      in binary_closing (map3 (\<lambda>v. v \<noteq> 0) volume) (Some struct) close_iterations)"

definition TopologyRepairer :: "uint8 array3 \<Rightarrow> uint8 array3 option" where
  "TopologyRepairer volume =
     (case closed_volume volume of
        None \<Rightarrow> None
      | Some volume_filled \<Rightarrow>
          map_option (map3 (\<lambda>b. if b then 1 else 0)) (binary_fill_holes volume_filled))"

text \<open>
  A background voxel is reachable from the outer boundary when the structuring element
  around it sticks out of the array, or covers a reachable background voxel.
\<close>

inductive reachable :: "coord list \<Rightarrow> bool array3 \<Rightarrow> coord \<Rightarrow> bool" for struct v where
  boundary: "in_bounds (shape3 v) p \<Longrightarrow> \<not> at3 v False p \<Longrightarrow> q \<in> set struct \<Longrightarrow>
             \<not> in_bounds (shape3 v) (sub3 p q) \<Longrightarrow> reachable struct v p"
| neighbour: "reachable struct v (sub3 p q) \<Longrightarrow> q \<in> set struct \<Longrightarrow>
             in_bounds (shape3 v) p \<Longrightarrow> \<not> at3 v False p \<Longrightarrow> reachable struct v p"

subsection \<open>The passes on voxel predicates\<close>

text \<open>
  What one pass without a mask and with border value 0 does to the predicate "the voxel at
  \<open>p\<close> lies in the array and is true", and the invariant of the flood of
  \<^verbatim>\<open>binary_fill_holes\<close>: every voxel marked so far is reachable.
\<close>

definition dilated :: "coord list \<Rightarrow> nat \<times> nat \<times> nat \<Rightarrow> (coord \<Rightarrow> bool) \<Rightarrow> coord \<Rightarrow> bool" where
  "dilated st s g p \<longleftrightarrow> (\<exists>q\<in>set st. in_bounds s (sub3 p q) \<and> g (sub3 p q))"

definition eroded :: "coord list \<Rightarrow> nat \<times> nat \<times> nat \<Rightarrow> (coord \<Rightarrow> bool) \<Rightarrow> coord \<Rightarrow> bool" where
  "eroded st s g p \<longleftrightarrow> (\<forall>q\<in>set st. in_bounds s (add3 p q) \<and> g (add3 p q))"

definition flood_inv :: "coord list \<Rightarrow> nat \<times> nat \<times> nat \<Rightarrow> (coord \<Rightarrow> bool) \<Rightarrow> bool array3 \<Rightarrow> bool" where
  "flood_inv st s cf v \<longleftrightarrow>
     (\<exists>f. v = tabulate3 s f \<and> (\<forall>p. in_bounds s p \<longrightarrow> f p \<longrightarrow> reachable st (tabulate3 s cf) p))"

text \<open>The closed volume, voxel by voxel.\<close>

definition closed_pred :: "uint8 array3 \<Rightarrow> coord \<Rightarrow> bool" where
  "closed_pred volume =
     (let s = shape3 volume; st = generate_binary_structure 3
      in eroded st s (eroded st s (dilated st s (dilated st s
           (at3 (map3 (\<lambda>v. v \<noteq> 0) volume) False)))))"

section \<open>SurfaceExtractor and MeshWriter (convert\_binarization\_to\_stl.py, lines 54 to 68)\<close>

type_synonym vertex = "real \<times> real \<times> real"
type_synonym face = "int \<times> int \<times> int"
type_synonym surface = "vertex list \<times> face list \<times> vertex list \<times> real list"

text \<open>
  The compiled kernel of scikit-image that walks the cubes and looks up the triangle tables
  is taken as it comes: from a volume of floats, a level and a step it returns vertices,
  faces, normals and values.
\<close>

type_synonym marching_cubes_kernel = "real array3 \<Rightarrow> real \<Rightarrow> nat \<Rightarrow> surface"

definition voxel_size :: real where
  "voxel_size = 4"

definition marching_step :: int where
  "marching_step = 1"

text \<open>\<^verbatim>\<open>volume.min()\<close> and \<^verbatim>\<open>volume.max()\<close>, called on arrays of at least 2 by 2 by 2 only.\<close>

definition array_min :: "real array3 \<Rightarrow> real" where
  "array_min v = fold min (tl (flatten3 v)) (hd (flatten3 v))"

definition array_max :: "real array3 \<Rightarrow> real" where
  "array_max v = fold max (tl (flatten3 v)) (hd (flatten3 v))"

definition fliplr :: "'a \<times> 'a \<times> 'a \<Rightarrow> 'a \<times> 'a \<times> 'a" where
  "fliplr t = (case t of (a, b, c) \<Rightarrow> (c, b, a))"

definition scale_vertex :: "real \<times> real \<times> real \<Rightarrow> vertex \<Rightarrow> vertex" where
  "scale_vertex spacing v = (case (spacing, v) of ((sz, sy, sx), (z, y, x)) \<Rightarrow> (z * sz, y * sy, x * sx))"

text \<open>
  \<^verbatim>\<open>skimage.measure.marching_cubes(volume, level, spacing=..., step_size=...)\<close>, with its
  checks in the order in which scikit-image makes them: the array is at least 2 by 2 by 2,
  the level lies within the range of the data, the step is at least one, and the kernel
  has found at least one vertex.
\<close>

definition marching_cubes ::
  "marching_cubes_kernel \<Rightarrow> uint8 array3 \<Rightarrow> real \<Rightarrow> real \<times> real \<times> real \<Rightarrow> int \<Rightarrow> error + surface" where
  "marching_cubes kern volume level spacing step_size =
     (case shape3 volume of (d, h, w) \<Rightarrow>
        if d < 2 \<or> h < 2 \<or> w < 2 then Inl ValueError_volume_too_small
        else
          let vol = map3 (\<lambda>v. real (unat v)) volume in
          if level < array_min vol \<or> array_max vol < level then Inl ValueError_level_out_of_range
          else if step_size < 1 then Inl ValueError_step_size
          else
            (case kern vol level (nat step_size) of
               (vertices, faces, normals, vals) \<Rightarrow>
                 if vertices = [] then Inl RuntimeError_no_surface
                 else Inr (map (scale_vertex spacing \<circ> fliplr) vertices, map fliplr faces,
                           map fliplr normals, vals)))"

definition SurfaceExtractor :: "marching_cubes_kernel \<Rightarrow> uint8 array3 \<Rightarrow> error + surface" where
  "SurfaceExtractor kern volume_filled =
     marching_cubes kern volume_filled (1 / 2) (voxel_size, voxel_size, voxel_size) marching_step"

subsection \<open>MeshWriter\<close>

text \<open>\<^verbatim>\<open>xs[i]\<close>: a negative index counts from the end, an index out of range raises.\<close>

definition py_index :: "'a list \<Rightarrow> int \<Rightarrow> error + 'a" where
  "py_index xs i =
     (if 0 \<le> i \<and> i < int (length xs) then Inr (xs ! nat i)
      else if - int (length xs) \<le> i \<and> i < 0 then Inr (xs ! nat (i + int (length xs)))
      else Inl (IndexError_vertex i))"

fun face_at :: "face \<Rightarrow> nat \<Rightarrow> int" where
  "face_at (a, b, c) j = (if j = 0 then a else if j = 1 then b else c)"

text \<open>
  The inner loop \<^verbatim>\<open>for j in range(3): solid_mesh.vectors[i][j] = verts[f[j], :]\<close> and the
  outer loop over \<^verbatim>\<open>enumerate(faces)\<close>, on the array of triangles that starts as zeros.
\<close>

fun assign_face :: "vertex list \<Rightarrow> nat \<Rightarrow> face \<Rightarrow> nat list \<Rightarrow> vertex list list \<Rightarrow> error + vertex list list" where
  "assign_face verts i f [] vectors = Inr vectors"
| "assign_face verts i f (j # js) vectors =
     (case py_index verts (face_at f j) of
        Inl err \<Rightarrow> Inl err
      | Inr v \<Rightarrow> assign_face verts i f js (vectors[i := (vectors ! i)[j := v]]))"

fun assign_faces :: "vertex list \<Rightarrow> (nat \<times> face) list \<Rightarrow> vertex list list \<Rightarrow> error + vertex list list" where
  "assign_faces verts [] vectors = Inr vectors"
| "assign_faces verts ((i, f) # rest) vectors =
     (case assign_face verts i f [0..<3] vectors of
        Inl err \<Rightarrow> Inl err
      | Inr vectors' \<Rightarrow> assign_faces verts rest vectors')"

text \<open>The three vertices that the inner loop leaves in the row of face \<open>f\<close>.\<close>

definition face_row :: "vertex list \<Rightarrow> face \<Rightarrow> vertex list" where
  "face_row verts f = map (\<lambda>j. projr (py_index verts (face_at f j))) [0..<3]"

text \<open>What \<^verbatim>\<open>solid_mesh.save\<close> is given to write: for each face its three vertices.\<close>

definition MeshWriter :: "vertex list \<Rightarrow> face list \<Rightarrow> error + vertex list list" where
  "MeshWriter verts faces =
     assign_faces verts (enumerate 0 faces) (replicate (length faces) (replicate 3 (0, 0, 0)))"

subsection \<open>Example directories\<close>

text \<open>
  Three states of \<^verbatim>\<open>output_binarization/\<close>: slices 1 and 3 of a series whose slice 2
  is missing (3 by 3 pixels, one of them 254 rather than 255), two slices of different sizes,
  and an empty directory. The index picked by nearest-neighbour resizing is the exact quotient.
\<close>

definition fs_gap :: env where
  "fs_gap =
     \<lparr> glob = (\<lambda>p. if p = ''output_binarization/*.png''
                  then [''output_binarization/3.png'', ''output_binarization/1.png''] else []),
       imread = (\<lambda>p. if p = ''output_binarization/1.png''
                    then Some [[255, 254, 0], [0, 255, 0], [0, 0, 0]]
                    else if p = ''output_binarization/3.png''
                    then Some [[255, 255, 0], [255, 255, 0], [0, 0, 0]]
                    else None),
       nearest = (\<lambda>s d i. (i * s) div d) \<rparr>"

definition fs_mismatch :: env where
  "fs_mismatch =
     \<lparr> glob = (\<lambda>p. if p = ''output_binarization/*.png''
                  then [''output_binarization/1.png'', ''output_binarization/2.png''] else []),
       imread = (\<lambda>p. if p = ''output_binarization/1.png''
                    then Some [[255, 254, 0], [0, 255, 0], [0, 0, 0]]
                    else if p = ''output_binarization/2.png''
                    then Some [[255, 255], [255, 255]]
                    else None),
       nearest = (\<lambda>s d i. (i * s) div d) \<rparr>"

definition fs_empty :: env where
  "fs_empty = \<lparr> glob = (\<lambda>p. []), imread = (\<lambda>p. None), nearest = (\<lambda>s d i. (i * s) div d) \<rparr>"

text \<open>
  A 3 by 4 slice with a bright bar, and stand-ins for the three OpenCV results on it:
  threshold 100, one component (label 1, four pixels), one contour around the dilated bar.
\<close>

definition slice_bar :: image where
  "slice_bar = [[20, 20, 20, 20], [200, 159, 160, 250], [20, 20, 20, 20]]"

definition cv_bar :: cv2 where
  "cv_bar =
     \<lparr> otsu = (\<lambda>img. 100),
       connectedComponentsWithStats =
         (\<lambda>img. (2, (\<lambda>y x. if y < length img \<and> x < length (img ! y) \<and> img ! y ! x \<noteq> 0 then 1 else 0),
                  (\<lambda>i. if i = 1 then length (filter (\<lambda>p. p \<noteq> 0) (concat img)) else 0))),
       findContours_external = (\<lambda>img. [\<lambda>y x. y < length img \<and> x < length (img ! y) \<and> img ! y ! x \<noteq> 0]) \<rparr>"

definition read_bar :: "string \<Rightarrow> image option" where
  "read_bar p = (if p = ''output_jpg/7.jpg'' then Some slice_bar else None)"

text \<open>
  Two degenerate volumes of 2 by 2 by 2 voxels, a kernel that finds no vertex, and a mesh of
  two triangles over four vertices, the second triangle using the index \<open>-1\<close> for the
  last vertex.
\<close>

definition volume_zeros :: "uint8 array3" where
  "volume_zeros = [[[0, 0], [0, 0]], [[0, 0], [0, 0]]]"

definition volume_ones :: "uint8 array3" where
  "volume_ones = [[[1, 1], [1, 1]], [[1, 1], [1, 1]]]"

definition kernel_nothing :: marching_cubes_kernel where
  "kernel_nothing vol level step = ([], [], [], [])"

definition four_verts :: "vertex list" where
  "four_verts = [(0, 0, 0), (4, 0, 0), (0, 4, 0), (0, 0, 4)]"

definition two_faces :: "face list" where
  "two_faces = [(0, 2, 1), (0, 1, - 1)]"

text \<open>
  A volume of 11 by 11 by 11 voxels: a hollow box, one voxel thick, from index 2 to index 8
  on each axis, with its corner voxel at (8, 8, 8) left out. The cavity of the box, indices
  3 to 7, touches the outside through that corner only, diagonally.
\<close>

definition box_shell :: "coord \<Rightarrow> bool" where
  "box_shell p =
     (case p of (z, y, x) \<Rightarrow>
        2 \<le> z \<and> z \<le> 8 \<and> 2 \<le> y \<and> y \<le> 8 \<and> 2 \<le> x \<and> x \<le> 8 \<and>
        (z = 2 \<or> z = 8 \<or> y = 2 \<or> y = 8 \<or> x = 2 \<or> x = 8) \<and>
        \<not> (z = 8 \<and> y = 8 \<and> x = 8))"

definition box_cavity :: "coord \<Rightarrow> bool" where
  "box_cavity p =
     (case p of (z, y, x) \<Rightarrow> 3 \<le> z \<and> z \<le> 7 \<and> 3 \<le> y \<and> y \<le> 7 \<and> 3 \<le> x \<and> x \<le> 7)"

definition box_volume :: "uint8 array3" where
  "box_volume = tabulate3 (11, 11, 11) (\<lambda>p. if box_shell p then 1 else 0)"

section \<open>Properties of VolumeAssembler\<close>

subsection \<open>Sorting and loading\<close>

lemma scaled_eq: "scaled n = (9 * n) div 10"
proof -
  have "rat_of_nat n * (9 / 10) = rat_of_nat (9 * n) / rat_of_nat 10" by simp
  then have "\<lfloor>rat_of_nat n * (9 / 10)\<rfloor> = int ((9 * n) div 10)"
    by (simp only: floor_divide_of_nat_eq)
  then show ?thesis by (simp add: scaled_def resize_ratio_def)
qed

lemma those_map_Some:
  "those (map f xs) = Some ys \<longleftrightarrow> (\<forall>x\<in>set xs. f x \<noteq> None) \<and> ys = map (\<lambda>x. the (f x)) xs"
  by (induction xs arbitrary: ys) (auto split: option.splits)

lemma those_map_None:
  "those (map f xs) = None \<longleftrightarrow> (\<exists>x\<in>set xs. f x = None)"
  by (induction xs) (auto split: option.splits)

lemma set_sort_by_keys: "set (sort_by_keys (map k fs) fs) = set fs"
proof -
  have "map snd (zip (map k fs) fs) = fs" by (simp add: map_snd_zip)
  then have "snd ` set (zip (map k fs) fs) = set fs" by (metis set_map)
  then show ?thesis by (simp add: sort_by_keys_def)
qed

lemma length_sort_by_keys: "length (sort_by_keys (map k fs) fs) = length fs"
  by (simp add: sort_by_keys_def)

lemma sorted_sort_by_keys: "sorted (map k (sort_by_keys (map k fs) fs))"
proof -
  let ?zs = "sort_key fst (zip (map k fs) fs)"
  have eq: "map (k \<circ> snd) ?zs = map fst ?zs"
    by (rule map_cong) (auto simp: in_set_zip)
  have "sorted (map fst ?zs)" by (rule sorted_sort_key)
  then have "sorted (map (k \<circ> snd) ?zs)" by (simp only: eq)
  then show ?thesis by (simp only: sort_by_keys_def map_map)
qed

lemma sort_files_Nil: "sort_files [] = Inr []"
  by (simp add: sort_files_def sort_by_keys_def)

lemma sort_files_Inr:
  "sort_files fs = Inr gs \<longleftrightarrow>
     (\<forall>f\<in>set fs. slice_index f \<noteq> None) \<and>
     gs = sort_by_keys (map (\<lambda>f. the (slice_index f)) fs) fs"
  by (auto simp: sort_files_def those_map_Some those_map_None split: option.splits)

lemma sort_files_Inl:
  "sort_files fs = Inl err \<Longrightarrow> \<exists>s. err = ValueError_invalid_literal s"
  by (auto simp: sort_files_def split: option.splits)

lemma sort_files_length: "sort_files fs = Inr gs \<Longrightarrow> length gs = length fs"
proof -
  assume "sort_files fs = Inr gs"
  then have "gs = sort_by_keys (map (\<lambda>f. the (slice_index f)) fs) fs"
    by (simp add: sort_files_Inr)
  then show ?thesis by (simp only: length_sort_by_keys)
qed

lemma load_volume_ok:
  "\<forall>f\<in>set fs. \<exists>img. load_resized e f = Inr img \<Longrightarrow>
     load_volume e fs = Inr (map (\<lambda>f. white_to_one (projr (load_resized e f))) fs)"
  by (induction fs) auto

lemma load_volume_InrD:
  "load_volume e fs = Inr vol \<Longrightarrow>
     (\<forall>f\<in>set fs. \<exists>img. load_resized e f = Inr img) \<and>
     vol = map (\<lambda>f. white_to_one (projr (load_resized e f))) fs"
  by (induction fs arbitrary: vol) (auto split: sum.splits)

lemma load_resized_Inl:
  "load_resized e f = Inl err \<Longrightarrow>
     err \<noteq> RuntimeError_no_images \<and> err \<noteq> ValueError_inhomogeneous_shape"
  by (auto simp: load_resized_def cv2_resize_nearest_def split: option.splits if_splits prod.splits)

lemma load_volume_Inl:
  "load_volume e fs = Inl err \<Longrightarrow>
     err \<noteq> RuntimeError_no_images \<and> err \<noteq> ValueError_inhomogeneous_shape"
  by (induction fs) (auto split: sum.splits dest: load_resized_Inl)

lemma np_array_Inr: "np_array ms = Inr v \<Longrightarrow> v = ms"
  by (auto simp: np_array_def split: if_splits)

lemma np_array_Inl: "np_array ms = Inl err \<Longrightarrow> err = ValueError_inhomogeneous_shape"
  by (auto simp: np_array_def split: if_splits)

lemma shape2_white_to_one: "shape2 (white_to_one img) = shape2 img"
  by (cases img) (simp_all add: shape2_def height_def width_def white_to_one_def)

lemma white_to_one_values:
  "row \<in> set (white_to_one img) \<Longrightarrow> v \<in> set row \<Longrightarrow> v = 0 \<or> v = 1"
  by (auto simp: white_to_one_def)

subsection \<open>The empty directory\<close>

text \<open>
  Claim C6. With no mask file found the script raises its \<^verbatim>\<open>RuntimeError\<close> (the spec's
  MissingInputError) and builds no volume; with at least one file found that error is never
  the outcome, whatever else goes wrong.
\<close>

theorem VolumeAssembler_no_images_iff:
  "VolumeAssembler e = Inl RuntimeError_no_images \<longleftrightarrow> collect_files e = []"
proof
  assume "collect_files e = []"
  then show "VolumeAssembler e = Inl RuntimeError_no_images"
    by (simp add: VolumeAssembler_def sort_files_Nil)
next
  assume a: "VolumeAssembler e = Inl RuntimeError_no_images"
  show "collect_files e = []"
  proof (cases "sort_files (collect_files e)")
    case (Inl err)
    with a sort_files_Inl [OF Inl] show ?thesis by (auto simp: VolumeAssembler_def)
  next
    case (Inr files)
    show ?thesis
    proof (cases "files = []")
      case True
      with sort_files_length [OF Inr] show ?thesis by simp
    next
      case False
      with a Inr show ?thesis
        by (auto simp: VolumeAssembler_def split: sum.splits dest: load_volume_Inl np_array_Inl)
    qed
  qed
qed

theorem VolumeAssembler_no_images_iff_witness:
  "VolumeAssembler fs_empty = Inl RuntimeError_no_images \<and>
   VolumeAssembler fs_gap \<noteq> Inl RuntimeError_no_images"
proof -
  have 1: "collect_files fs_empty = []" by code_simp
  have 2: "collect_files fs_gap \<noteq> []" by code_simp
  have "VolumeAssembler fs_empty = Inl RuntimeError_no_images"
    using 1 by (simp only: VolumeAssembler_no_images_iff)
  moreover have "VolumeAssembler fs_gap \<noteq> Inl RuntimeError_no_images"
    using 2 by (simp only: VolumeAssembler_no_images_iff not_False_eq_True)
  ultimately show ?thesis by (rule conjI)
qed

subsection \<open>Masks of different sizes\<close>

text \<open>
  Claim C7. When every file name is a number and every file is read and resized, and two of
  the resized masks differ in height or width, the script stops in \<^verbatim>\<open>np.array\<close> with the
  \<^verbatim>\<open>ValueError\<close> for an inhomogeneous shape (the spec's InputShapeError): no volume is built.
\<close>

theorem VolumeAssembler_shape_mismatch:
  assumes numeric: "\<forall>f\<in>set (collect_files e). slice_index f \<noteq> None"
      and readable: "\<forall>f\<in>set (collect_files e). \<not> isl (load_resized e f)"
      and f: "f \<in> set (collect_files e)" and g: "g \<in> set (collect_files e)"
      and differ: "shape2 (projr (load_resized e f)) \<noteq> shape2 (projr (load_resized e g))"
  shows "VolumeAssembler e = Inl ValueError_inhomogeneous_shape"
proof -
  let ?m = "\<lambda>f. white_to_one (projr (load_resized e f))"
  obtain files where files: "sort_files (collect_files e) = Inr files"
    and set_files: "set files = set (collect_files e)"
    using numeric by (auto simp: sort_files_Inr set_sort_by_keys simp del: set_map)
  from f set_files have ne: "files \<noteq> []" by auto
  from readable set_files have "\<forall>f\<in>set files. \<exists>img. load_resized e f = Inr img"
    by (metis sum.collapse(2))
  then have vol: "load_volume e files = Inr (map ?m files)" by (rule load_volume_ok)
  have "\<not> list_all (\<lambda>m. shape2 m = shape2 (hd (map ?m files))) (map ?m files)"
  proof
    assume all: "list_all (\<lambda>m. shape2 m = shape2 (hd (map ?m files))) (map ?m files)"
    from f g set_files have "?m f \<in> set (map ?m files)" "?m g \<in> set (map ?m files)" by auto
    with all have "shape2 (?m f) = shape2 (?m g)" by (auto simp: list_all_iff)
    with differ show False by (simp add: shape2_white_to_one)
  qed
  then have "np_array (map ?m files) = Inl ValueError_inhomogeneous_shape"
    by (simp add: np_array_def)
  with files ne vol show ?thesis by (simp add: VolumeAssembler_def)
qed

theorem VolumeAssembler_shape_mismatch_witness:
  "shape2 (projr (load_resized fs_mismatch ''output_binarization/1.png'')) = (2, 2) \<and>
   shape2 (projr (load_resized fs_mismatch ''output_binarization/2.png'')) = (1, 1) \<and>
   VolumeAssembler fs_mismatch = Inl ValueError_inhomogeneous_shape"
proof -
  have 1: "\<forall>f\<in>set (collect_files fs_mismatch). slice_index f \<noteq> None" by code_simp
  have 2: "\<forall>f\<in>set (collect_files fs_mismatch). \<not> isl (load_resized fs_mismatch f)" by code_simp
  have 3: "''output_binarization/1.png'' \<in> set (collect_files fs_mismatch)" by code_simp
  have 4: "''output_binarization/2.png'' \<in> set (collect_files fs_mismatch)" by code_simp
  have 5: "shape2 (projr (load_resized fs_mismatch ''output_binarization/1.png'')) = (2, 2)"
    by code_simp
  have 6: "shape2 (projr (load_resized fs_mismatch ''output_binarization/2.png'')) = (1, 1)"
    by code_simp
  from 5 6 have 7: "shape2 (projr (load_resized fs_mismatch ''output_binarization/1.png''))
      \<noteq> shape2 (projr (load_resized fs_mismatch ''output_binarization/2.png''))" by simp
  have "VolumeAssembler fs_mismatch = Inl ValueError_inhomogeneous_shape"
    by (rule VolumeAssembler_shape_mismatch [OF 1 2 3 4 7])
  with 5 6 show ?thesis by (intro conjI)
qed

subsection \<open>A missing slice\<close>

text \<open>
  Against claim C5 as the spec words it: slices 1 and 3 are found, slice 2 is missing, and the
  script sorts the two files and stacks them into a volume of two layers. No error is raised.
\<close>

theorem VolumeAssembler_gap_is_assembled:
  "sort_files (collect_files fs_gap) =
     Inr [''output_binarization/1.png'', ''output_binarization/3.png''] \<and>
   map slice_index [''output_binarization/1.png'', ''output_binarization/3.png''] = [Some 1, Some 3] \<and>
   VolumeAssembler fs_gap = Inr [[[1, 0], [0, 1]], [[1, 1], [1, 1]]]"
  by code_simp

text \<open>
  Claim C5, amended. The script never compares slice indices with one another beyond sorting
  by them. For every non-empty list of files whose names are numbers and that are read and
  resized to one common shape, consecutive indices or not, it stacks one layer for each file
  found, in increasing order of index.
\<close>

theorem VolumeAssembler_stacks_files_found:
  assumes nonempty: "collect_files e \<noteq> []"
      and numeric: "\<forall>f\<in>set (collect_files e). slice_index f \<noteq> None"
      and readable: "\<forall>f\<in>set (collect_files e).
                       \<not> isl (load_resized e f) \<and> shape2 (projr (load_resized e f)) = s"
  shows "\<exists>files. sort_files (collect_files e) = Inr files \<and>
           length files = length (collect_files e) \<and> set files = set (collect_files e) \<and>
           sorted (map (\<lambda>f. the (slice_index f)) files) \<and>
           VolumeAssembler e = Inr (map (\<lambda>f. white_to_one (projr (load_resized e f))) files)"
proof -
  let ?m = "\<lambda>f. white_to_one (projr (load_resized e f))"
  let ?files = "sort_by_keys (map (\<lambda>f. the (slice_index f)) (collect_files e)) (collect_files e)"
  have files: "sort_files (collect_files e) = Inr ?files"
    using numeric by (simp add: sort_files_Inr)
  have set_files: "set ?files = set (collect_files e)" by (rule set_sort_by_keys)
  have len: "length ?files = length (collect_files e)" by (rule length_sort_by_keys)
  with nonempty have ne: "?files \<noteq> []" by (metis length_0_conv)
  from readable set_files have "\<forall>f\<in>set ?files. \<exists>img. load_resized e f = Inr img"
    by (metis sum.collapse(2))
  then have vol: "load_volume e ?files = Inr (map ?m ?files)" by (rule load_volume_ok)
  have "\<forall>m\<in>set (map ?m ?files). shape2 m = s"
  proof
    fix m assume "m \<in> set (map ?m ?files)"
    then obtain f where "f \<in> set ?files" "m = ?m f" by auto
    with readable set_files show "shape2 m = s" by (simp add: shape2_white_to_one)
  qed
  moreover from ne have "hd (map ?m ?files) \<in> set (map ?m ?files)" by (simp del: set_map)
  ultimately have "list_all (\<lambda>m. shape2 m = shape2 (hd (map ?m ?files))) (map ?m ?files)"
    unfolding list_all_iff by metis
  then have "np_array (map ?m ?files) = Inr (map ?m ?files)" by (simp add: np_array_def)
  with files ne vol have "VolumeAssembler e = Inr (map ?m ?files)"
    by (simp add: VolumeAssembler_def)
  with files set_files len sorted_sort_by_keys [of "\<lambda>f. the (slice_index f)" "collect_files e"]
  show ?thesis by blast
qed

theorem VolumeAssembler_stacks_files_found_witness:
  "map slice_index (collect_files fs_gap) = [Some 3, Some 1] \<and>
   (\<exists>files. sort_files (collect_files fs_gap) = Inr files \<and>
           length files = length (collect_files fs_gap) \<and> set files = set (collect_files fs_gap) \<and>
           sorted (map (\<lambda>f. the (slice_index f)) files) \<and>
           VolumeAssembler fs_gap = Inr (map (\<lambda>f. white_to_one (projr (load_resized fs_gap f))) files))"
proof -
  have 1: "collect_files fs_gap \<noteq> []" by code_simp
  have 2: "\<forall>f\<in>set (collect_files fs_gap). slice_index f \<noteq> None" by code_simp
  have 3: "\<forall>f\<in>set (collect_files fs_gap).
             \<not> isl (load_resized fs_gap f) \<and> shape2 (projr (load_resized fs_gap f)) = (2, 2)"
    by code_simp
  have 4: "map slice_index (collect_files fs_gap) = [Some 3, Some 1]" by code_simp
  show ?thesis
    by (rule conjI [OF 4 VolumeAssembler_stacks_files_found [OF 1 2 3]])
qed

subsection \<open>White and everything else\<close>

text \<open>
  Claim C10. In an assembled volume, layer \<open>k\<close> has the shape of the \<open>k\<close>-th resized mask;
  a voxel is 1 exactly where that mask holds the value 255 and 0 wherever it holds anything
  else, 254 included. So a volume holds no value but 0 and 1.
\<close>

theorem VolumeAssembler_one_iff_255:
  assumes ok: "VolumeAssembler e = Inr vol"
  shows "(\<exists>files. sort_files (collect_files e) = Inr files \<and> length vol = length files \<and>
            (\<forall>k<length files. \<exists>img. load_resized e (files ! k) = Inr img \<and>
               length (vol ! k) = length img \<and>
               (\<forall>y<length img. length (vol ! k ! y) = length (img ! y) \<and>
                  (\<forall>x<length (img ! y).
                     vol ! k ! y ! x = (if img ! y ! x = 255 then 1 else 0))))) \<and>
         (\<forall>plane\<in>set vol. \<forall>row\<in>set plane. \<forall>v\<in>set row. v = 0 \<or> v = 1)"
proof -
  let ?m = "\<lambda>f. white_to_one (projr (load_resized e f))"
  from ok obtain files where files: "sort_files (collect_files e) = Inr files"
    and vol': "load_volume e files = Inr vol"
    by (auto simp: VolumeAssembler_def split: sum.splits if_splits dest: np_array_Inr)
  from load_volume_InrD [OF vol']
  have readable: "\<forall>f\<in>set files. \<exists>img. load_resized e f = Inr img"
    and vol: "vol = map ?m files" by simp_all
  have "\<forall>k<length files. \<exists>img. load_resized e (files ! k) = Inr img \<and>
               length (vol ! k) = length img \<and>
               (\<forall>y<length img. length (vol ! k ! y) = length (img ! y) \<and>
                  (\<forall>x<length (img ! y). vol ! k ! y ! x = (if img ! y ! x = 255 then 1 else 0)))"
  proof (intro allI impI)
    fix k assume k: "k < length files"
    with readable obtain img where img: "load_resized e (files ! k) = Inr img"
      by (meson nth_mem)
    with k vol have "vol ! k = white_to_one img" by simp
    then have "length (vol ! k) = length img \<and>
               (\<forall>y<length img. length (vol ! k ! y) = length (img ! y) \<and>
                  (\<forall>x<length (img ! y). vol ! k ! y ! x = (if img ! y ! x = 255 then 1 else 0)))"
      by (simp add: white_to_one_def)
    with img show "\<exists>img. load_resized e (files ! k) = Inr img \<and>
               length (vol ! k) = length img \<and>
               (\<forall>y<length img. length (vol ! k ! y) = length (img ! y) \<and>
                  (\<forall>x<length (img ! y). vol ! k ! y ! x = (if img ! y ! x = 255 then 1 else 0)))"
      by blast
  qed
  moreover have "\<forall>plane\<in>set vol. \<forall>row\<in>set plane. \<forall>v\<in>set row. v = 0 \<or> v = 1"
    using vol by (auto dest: white_to_one_values)
  moreover have "length vol = length files" using vol by simp
  ultimately show ?thesis using files by blast
qed

theorem VolumeAssembler_one_iff_255_witness:
  "load_resized fs_gap ''output_binarization/1.png'' = Inr [[255, 254], [0, 255]] \<and>
   VolumeAssembler fs_gap = Inr [[[1, 0], [0, 1]], [[1, 1], [1, 1]]] \<and>
   (\<exists>files. sort_files (collect_files fs_gap) = Inr files \<and>
      length [[[1, 0], [0, 1]], [[1, 1], [1, 1 :: uint8]]] = length files \<and>
      (\<forall>k<length files. \<exists>img. load_resized fs_gap (files ! k) = Inr img \<and>
         length ([[[1, 0], [0, 1]], [[1, 1], [1, 1 :: uint8]]] ! k) = length img \<and>
         (\<forall>y<length img. length ([[[1, 0], [0, 1]], [[1, 1], [1, 1 :: uint8]]] ! k ! y) = length (img ! y) \<and>
            (\<forall>x<length (img ! y).
               [[[1, 0], [0, 1]], [[1, 1], [1, 1 :: uint8]]] ! k ! y ! x
                 = (if img ! y ! x = 255 then 1 else 0)))))"
proof -
  have 1: "VolumeAssembler fs_gap = Inr [[[1, 0], [0, 1]], [[1, 1], [1, 1]]]" by code_simp
  have 2: "load_resized fs_gap ''output_binarization/1.png'' = Inr [[255, 254], [0, 255]]"
    by code_simp
  show ?thesis
    by (intro conjI 1 2 VolumeAssembler_one_iff_255 [OF 1, THEN conjunct1])
qed

section \<open>Properties of SliceBinarizer\<close>

subsection \<open>Shapes and values through the pipeline\<close>

lemma length_map_index2: "length (map_index2 f img) = length img"
  by (simp add: map_index2_def)

lemma nth_map_index2:
  "y < length img \<Longrightarrow> map_index2 f img ! y = map (\<lambda>(x, p). f y x p) (enumerate 0 (img ! y))"
  by (simp add: map_index2_def nth_enumerate_eq)

lemma length_nth_map_index2:
  "y < length img \<Longrightarrow> length (map_index2 f img ! y) = length (img ! y)"
  by (simp add: nth_map_index2)

lemma nth_nth_map_index2:
  "y < length img \<Longrightarrow> x < length (img ! y) \<Longrightarrow> map_index2 f img ! y ! x = f y x (img ! y ! x)"
  by (simp add: nth_map_index2 nth_enumerate_eq)

lemma width_map_index2: "width (map_index2 f img) = width img"
  by (cases img) (simp_all add: width_def map_index2_def enumerate_simps)

lemma shape2_map_index2: "shape2 (map_index2 f img) = shape2 img"
  by (simp add: shape2_def height_def length_map_index2 width_map_index2)

lemma rect2_iff: "rect2 img \<longleftrightarrow> (\<forall>y<length img. length (img ! y) = width img)"
  by (simp add: rect2_def list_all_length)

lemma rect2_map_index2: "rect2 img \<Longrightarrow> rect2 (map_index2 f img)"
  by (simp add: rect2_iff length_map_index2 length_nth_map_index2 width_map_index2)

lemma binary_valued_iff:
  "binary_valued img \<longleftrightarrow>
     (\<forall>y<length img. \<forall>x<length (img ! y). img ! y ! x = 0 \<or> img ! y ! x = 255)"
  by (simp add: binary_valued_def list_all_length)

lemma binary_valued_map_index2:
  assumes "\<And>y x. y < length img \<Longrightarrow> x < length (img ! y) \<Longrightarrow>
             f y x (img ! y ! x) = 0 \<or> f y x (img ! y ! x) = 255"
  shows "binary_valued (map_index2 f img)"
  using assms by (simp add: binary_valued_iff length_map_index2 length_nth_map_index2 nth_nth_map_index2)

lemma shape2_threshold: "shape2 (cv2_threshold_binary src t m) = shape2 src"
  by (cases src) (simp_all add: shape2_def height_def width_def cv2_threshold_binary_def)

lemma rect2_threshold: "rect2 src \<Longrightarrow> rect2 (cv2_threshold_binary src t m)"
  using shape2_threshold [of src t m]
  by (simp add: rect2_iff shape2_def cv2_threshold_binary_def)

lemma binary_valued_threshold: "binary_valued (cv2_threshold_binary src t 255)"
  by (simp add: binary_valued_iff cv2_threshold_binary_def)


lemma mask_of_shape_map_index2:
  assumes "mask_of_shape s img"
      and "\<And>y x. y < length img \<Longrightarrow> x < length (img ! y) \<Longrightarrow>
             f y x (img ! y ! x) = 0 \<or> f y x (img ! y ! x) = 255"
  shows "mask_of_shape s (map_index2 f img)"
  using assms
  by (simp add: mask_of_shape_def shape2_map_index2 rect2_map_index2 binary_valued_map_index2)

lemma mask_of_shape_clear_label:
  "mask_of_shape s b \<Longrightarrow> mask_of_shape s (clear_label labels i b)"
  unfolding clear_label_def
  by (rule mask_of_shape_map_index2) (auto simp: mask_of_shape_def binary_valued_iff)

lemma mask_of_shape_remove_noise:
  assumes "mask_of_shape s b"
  shows "mask_of_shape s (remove_noise cv b)"
proof -
  have "mask_of_shape s (fold (\<lambda>i b. if area i < MIN_AREA then clear_label labels i b else b) is b)"
    for labels area "is"
    using assms by (induction "is" arbitrary: b) (simp_all add: mask_of_shape_clear_label)
  then show ?thesis by (simp add: remove_noise_def split: prod.splits)
qed

lemma under_kernel_values:
  assumes "rect2 src" and "binary_valued src" and "p \<in> set (under_kernel src offs y x)"
  shows "p = 0 \<or> p = 255"
proof -
  from assms(3) obtain dy dx where
    b: "0 \<le> int y + dy" "int y + dy < int (height src)" "0 \<le> int x + dx" "int x + dx < int (width src)"
    and p: "p = src ! nat (int y + dy) ! nat (int x + dx)"
    by (auto simp: under_kernel_def split: if_splits)
  from b have y': "nat (int y + dy) < length src" by (simp add: height_def)
  with assms(1) have "length (src ! nat (int y + dy)) = width src" by (simp add: rect2_iff)
  with b have "nat (int x + dx) < length (src ! nat (int y + dy))" by simp
  with y' assms(2) p show ?thesis by (simp add: binary_valued_iff)
qed

lemma fold_max_values:
  "\<forall>p\<in>set ps. p = 0 \<or> p = (255::uint8) \<Longrightarrow> a = 0 \<or> a = 255 \<Longrightarrow>
     fold max ps a = 0 \<or> fold max ps a = 255"
  by (induction ps arbitrary: a) (auto simp: max_def)

lemma fold_min_values:
  "\<forall>p\<in>set ps. p = 0 \<or> p = (255::uint8) \<Longrightarrow> a = 0 \<or> a = 255 \<Longrightarrow>
     fold min ps a = 0 \<or> fold min ps a = 255"
  by (induction ps arbitrary: a) (auto simp: min_def)

lemma mask_of_shape_dilate_once:
  assumes "mask_of_shape s src"
  shows "mask_of_shape s (dilate_once k src)"
  unfolding dilate_once_def
proof (rule mask_of_shape_map_index2 [OF assms])
  fix y x
  from assms have "\<forall>p\<in>set (under_kernel src (kernel_offsets k) y x). p = 0 \<or> p = 255"
    by (auto simp: mask_of_shape_def dest: under_kernel_values)
  then show "fold max (under_kernel src (kernel_offsets k) y x) 0 = 0 \<or>
             fold max (under_kernel src (kernel_offsets k) y x) 0 = 255"
    by (rule fold_max_values) simp
qed

lemma mask_of_shape_erode_once:
  assumes "mask_of_shape s src"
  shows "mask_of_shape s (erode_once k src)"
  unfolding erode_once_def
proof (rule mask_of_shape_map_index2 [OF assms])
  fix y x
  from assms have "\<forall>p\<in>set (under_kernel src (kernel_offsets k) y x). p = 0 \<or> p = 255"
    by (auto simp: mask_of_shape_def dest: under_kernel_values)
  then show "fold min (under_kernel src (kernel_offsets k) y x) 255 = 0 \<or>
             fold min (under_kernel src (kernel_offsets k) y x) 255 = 255"
    by (rule fold_min_values) simp
qed

lemma mask_of_shape_cv2_dilate:
  "mask_of_shape s src \<Longrightarrow> mask_of_shape s (cv2_dilate src k n)"
  unfolding cv2_dilate_def by (induction n) (simp_all add: mask_of_shape_dilate_once)

lemma mask_of_shape_cv2_erode:
  "mask_of_shape s src \<Longrightarrow> mask_of_shape s (cv2_erode src k n)"
  unfolding cv2_erode_def by (induction n) (simp_all add: mask_of_shape_erode_once)

lemma mask_of_shape_drawContours:
  "mask_of_shape s img \<Longrightarrow> mask_of_shape s (drawContours_filled cnt 255 img)"
  unfolding drawContours_filled_def
  by (rule mask_of_shape_map_index2) (auto simp: mask_of_shape_def binary_valued_iff)

lemma mask_of_shape_fill_contours:
  assumes "mask_of_shape s img"
  shows "mask_of_shape s (fill_contours cv img)"
proof -
  have "mask_of_shape s (fold (\<lambda>cnt img. drawContours_filled cnt 255 img) cs img)" for cs
    using assms by (induction cs arbitrary: img) (simp_all add: mask_of_shape_drawContours)
  then show ?thesis by (simp add: fill_contours_def)
qed

lemma mask_of_shape_initial_mask:
  "rect2 img \<Longrightarrow> mask_of_shape (shape2 img) (initial_mask cv img)"
  by (simp add: mask_of_shape_def initial_mask_def shape2_threshold rect2_threshold binary_valued_threshold)

lemma mask_of_shape_binarize:
  "rect2 img \<Longrightarrow> mask_of_shape (shape2 img) (binarize cv img)"
  unfolding binarize_def Let_def
  by (intro mask_of_shape_cv2_erode mask_of_shape_fill_contours mask_of_shape_cv2_dilate
            mask_of_shape_remove_noise mask_of_shape_initial_mask)

subsection \<open>The mask of a slice\<close>

text \<open>
  Claim C3. Every file that OpenCV decodes (to a rectangular array) gives one mask; the mask has
  the height and the width of the slice, and each of its pixels is 0 or 255. This holds
  whatever the Otsu threshold, the component labelling and the contours are.
\<close>

theorem SliceBinarizer_mask_shape_and_values:
  assumes "f \<in> set files" and "read f = Some img" and "rect2 img"
  shows "(path_join output_dir (basename f), binarize cv img) \<in> set (SliceBinarizer cv read files) \<and>
         shape2 (binarize cv img) = shape2 img \<and> rect2 (binarize cv img) \<and>
         binary_valued (binarize cv img)"
proof -
  from assms(1,2) have "(path_join output_dir (basename f), binarize cv img)
      \<in> set (SliceBinarizer cv read files)"
    by (force simp: SliceBinarizer_def)
  with mask_of_shape_binarize [OF assms(3), of cv] show ?thesis
    by (simp add: mask_of_shape_def)
qed

theorem SliceBinarizer_mask_shape_and_values_witness:
  "shape2 slice_bar = (3, 4) \<and>
   ((path_join output_dir (basename ''output_jpg/7.jpg''), binarize cv_bar slice_bar)
      \<in> set (SliceBinarizer cv_bar read_bar [''output_jpg/7.jpg'']) \<and>
    shape2 (binarize cv_bar slice_bar) = shape2 slice_bar \<and> rect2 (binarize cv_bar slice_bar) \<and>
    binary_valued (binarize cv_bar slice_bar))"
proof -
  have 1: "''output_jpg/7.jpg'' \<in> set [''output_jpg/7.jpg'']" by simp
  have 2: "read_bar ''output_jpg/7.jpg'' = Some slice_bar" by (simp add: read_bar_def)
  have 3: "rect2 slice_bar" by (simp add: rect2_def slice_bar_def width_def)
  have 4: "shape2 slice_bar = (3, 4)" by (simp add: shape2_def slice_bar_def width_def height_def)
  show ?thesis
    by (rule conjI [OF 4 SliceBinarizer_mask_shape_and_values
          [where files = "[''output_jpg/7.jpg'']" and read = read_bar and cv = cv_bar, OF 1 2 3]])
qed

subsection \<open>The biased threshold\<close>

text \<open>
  Claim C8. The threshold applied to a slice is its Otsu threshold plus 59, and 255 when that
  sum is larger; in the first mask a pixel is foreground (255) exactly where the slice is
  strictly brighter than this threshold, and background (0) elsewhere.
\<close>

theorem initial_mask_biased_threshold:
  "threshold_val cv img = min (otsu cv img + 59) 255 \<and>
   (\<forall>y<length img. \<forall>x<length (img ! y).
      initial_mask cv img ! y ! x = (if threshold_val cv img < unat (img ! y ! x) then 255 else 0))"
  by (simp add: threshold_val_def initial_mask_def cv2_threshold_binary_def)

theorem initial_mask_biased_threshold_witness:
  "threshold_val cv_bar slice_bar = 159 \<and> slice_bar ! 1 = [200, 159, 160, 250] \<and>
   initial_mask cv_bar slice_bar ! 1 ! 1 = 0 \<and> initial_mask cv_bar slice_bar ! 1 ! 2 = 255"
proof -
  have t: "threshold_val cv_bar slice_bar = 159"
    by (simp add: threshold_val_def cv_bar_def)
  have row: "slice_bar ! 1 = [200, 159, 160, 250]" by (simp add: slice_bar_def)
  have len: "(1::nat) < length slice_bar" by (simp add: slice_bar_def)
  from initial_mask_biased_threshold [of cv_bar slice_bar] len
  have *: "\<forall>x<length (slice_bar ! 1).
      initial_mask cv_bar slice_bar ! 1 ! x = (if threshold_val cv_bar slice_bar < unat (slice_bar ! 1 ! x) then 255 else 0)"
    by blast
  have l1: "(1::nat) < length (slice_bar ! 1)" and l2: "(2::nat) < length (slice_bar ! 1)"
    unfolding row by simp_all
  have p1: "slice_bar ! 1 ! 1 = 159" and p2: "slice_bar ! 1 ! 2 = 160"
    by (simp_all add: slice_bar_def)
  from * l1 have "initial_mask cv_bar slice_bar ! 1 ! 1
      = (if threshold_val cv_bar slice_bar < unat (slice_bar ! 1 ! 1) then 255 else 0)" by blast
  then have a: "initial_mask cv_bar slice_bar ! 1 ! 1 = 0" by (simp only: t p1) simp
  from * l2 have "initial_mask cv_bar slice_bar ! 1 ! 2
      = (if threshold_val cv_bar slice_bar < unat (slice_bar ! 1 ! 2) then 255 else 0)" by blast
  then have b: "initial_mask cv_bar slice_bar ! 1 ! 2 = 255" by (simp only: t p2) simp
  from t row a b show ?thesis by (intro conjI)
qed

section \<open>Properties of SurfaceExtractor and MeshWriter\<close>

subsection \<open>A volume of one value\<close>

lemma flatten3_map3: "flatten3 (map3 f v) = map f (flatten3 v)"
  by (simp add: flatten3_def map3_def map_concat)

lemma fold_min_const: "\<forall>x\<in>set xs. x = (a::real) \<Longrightarrow> fold min xs a = a"
  by (induction xs) simp_all

lemma fold_max_const: "\<forall>x\<in>set xs. x = (a::real) \<Longrightarrow> fold max xs a = a"
  by (induction xs) simp_all

lemma flatten3_nonempty:
  assumes "shape3 v = (d, h, w)" and "2 \<le> d" and "2 \<le> h" and "2 \<le> w"
  shows "flatten3 v \<noteq> []"
proof -
  from assms obtain p ps where v: "v = p # ps" by (cases v) (auto simp: shape3_def)
  with assms obtain r rs where p: "p = r # rs" by (cases p) (auto simp: shape3_def)
  with v assms have "r \<noteq> []" by (auto simp: shape3_def)
  with v p show ?thesis by (simp add: flatten3_def)
qed

lemma constant_array_min_max:
  assumes const: "\<forall>x\<in>set (flatten3 v). x = a" and ne: "flatten3 v \<noteq> []"
  shows "array_min v = a \<and> array_max v = a"
proof -
  from ne obtain x xs where xs: "flatten3 v = x # xs" by (cases "flatten3 v") auto
  with const have "x = a" "\<forall>y\<in>set xs. y = a" by auto
  with xs show ?thesis by (simp add: array_min_def array_max_def fold_min_const fold_max_const)
qed

text \<open>
  Against claim C1 as the spec words it: on the volume of eight background voxels, and on the
  volume of eight foreground voxels, the level 0.5 lies outside the range of the data and
  scikit-image raises \<^verbatim>\<open>ValueError\<close>. The script does not catch it: no mesh, empty or not,
  is returned.
\<close>

theorem SurfaceExtractor_fails_on_zeros_and_ones:
  "SurfaceExtractor kernel_nothing volume_zeros = Inl ValueError_level_out_of_range \<and>
   SurfaceExtractor kernel_nothing volume_ones = Inl ValueError_level_out_of_range"
  by (simp add: SurfaceExtractor_def marching_cubes_def shape3_def map3_def array_min_def
        array_max_def flatten3_def volume_zeros_def volume_ones_def)

text \<open>
  Claim C1, amended. On every volume whose voxels all hold one value (all background, or all
  foreground) SurfaceExtractor fails with a \<^verbatim>\<open>ValueError\<close>: for an array smaller than
  2 by 2 by 2 because of its size, for any other because the level 0.5 is not within the
  range of the data. It returns no mesh.
\<close>

theorem SurfaceExtractor_fails_on_constant_volume:
  assumes const: "\<forall>v\<in>set (flatten3 volume). v = c"
      and s: "shape3 volume = (d, h, w)"
  shows "SurfaceExtractor kern volume =
           Inl (if d < 2 \<or> h < 2 \<or> w < 2 then ValueError_volume_too_small
                else ValueError_level_out_of_range)"
proof (cases "d < 2 \<or> h < 2 \<or> w < 2")
  case True
  with s show ?thesis by (simp add: SurfaceExtractor_def marching_cubes_def)
next
  case False
  let ?vol = "map3 (\<lambda>v. real (unat v)) volume"
  from False s have "flatten3 volume \<noteq> []" by (intro flatten3_nonempty [OF s]) simp_all
  then have ne: "flatten3 ?vol \<noteq> []" by (simp add: flatten3_map3)
  from const have "\<forall>x\<in>set (flatten3 ?vol). x = real (unat c)" by (auto simp: flatten3_map3)
  from constant_array_min_max [OF this ne]
  have mm: "array_min ?vol = real (unat c)" "array_max ?vol = real (unat c)" by simp_all
  have "1 / 2 < real (unat c) \<or> real (unat c) < 1 / 2"
    by (cases "unat c") simp_all
  with mm False s show ?thesis
    by (auto simp: SurfaceExtractor_def marching_cubes_def Let_def)
qed

theorem SurfaceExtractor_fails_on_constant_volume_witness:
  "shape3 volume_ones = (2, 2, 2) \<and>
   SurfaceExtractor kernel_nothing volume_ones =
     Inl (if (2::nat) < 2 \<or> (2::nat) < 2 \<or> (2::nat) < 2 then ValueError_volume_too_small
          else ValueError_level_out_of_range)"
proof -
  have 1: "\<forall>v\<in>set (flatten3 volume_ones). v = 1"
    by (simp add: flatten3_def volume_ones_def)
  have 2: "shape3 volume_ones = (2, 2, 2)"
    by (simp add: shape3_def volume_ones_def)
  show ?thesis
    by (rule conjI [OF 2 SurfaceExtractor_fails_on_constant_volume [OF 1 2]])
qed

subsection \<open>The triangles handed to the STL file\<close>

lemma upt_3: "[0..<3] = [0, 1, 2]"
  by (simp add: upt_rec)

lemma assign_face_ok:
  assumes i: "i < length vs" and len: "length (vs ! i) = 3"
      and ok: "\<forall>j<3. \<not> isl (py_index verts (face_at f j))"
  shows "assign_face verts i f [0..<3] vs = Inr (vs[i := face_row verts f])"
proof -
  from len obtain a b c where row: "vs ! i = [a, b, c]"
    by (metis (no_types, opaque_lifting) length_0_conv length_Suc_conv numeral_3_eq_3)
  from ok obtain v0 v1 v2 where v:
    "py_index verts (face_at f 0) = Inr v0" "py_index verts (face_at f 1) = Inr v1"
    "py_index verts (face_at f 2) = Inr v2"
    by (metis One_nat_def Suc_1 lessI numeral_3_eq_3 sum.collapse(2) zero_less_Suc less_SucI)
  with i row show ?thesis
    by (simp add: upt_3 face_row_def)
qed

lemma assign_faces_ok:
  assumes "n + length fs \<le> length vs"
      and "\<forall>i<length vs. length (vs ! i) = 3"
      and "\<forall>f\<in>set fs. \<forall>j<3. \<not> isl (py_index verts (face_at f j))"
  shows "\<exists>vs'. assign_faces verts (enumerate n fs) vs = Inr vs' \<and> length vs' = length vs \<and>
           (\<forall>i<length vs. vs' ! i = (if n \<le> i \<and> i < n + length fs then face_row verts (fs ! (i - n)) else vs ! i))"
  using assms
proof (induction fs arbitrary: n vs)
  case Nil
  then show ?case by auto
next
  case (Cons f fs)
  let ?vs1 = "vs[n := face_row verts f]"
  from Cons.prems have n: "n < length vs" by simp
  from Cons.prems n have 1: "assign_face verts n f [0..<3] vs = Inr ?vs1"
    by (intro assign_face_ok) simp_all
  have len1: "\<forall>i<length ?vs1. length (?vs1 ! i) = 3"
    using Cons.prems(2) n by (auto simp: nth_list_update face_row_def)
  from Cons.prems have "Suc n + length fs \<le> length ?vs1" by simp
  from Cons.IH [OF this len1] Cons.prems(3)
  obtain vs' where vs': "assign_faces verts (enumerate (Suc n) fs) ?vs1 = Inr vs'"
    "length vs' = length ?vs1"
    "\<forall>i<length ?vs1. vs' ! i = (if Suc n \<le> i \<and> i < Suc n + length fs then face_row verts (fs ! (i - Suc n)) else ?vs1 ! i)"
    by auto
  have "\<forall>i<length vs. vs' ! i = (if n \<le> i \<and> i < n + length (f # fs) then face_row verts ((f # fs) ! (i - n)) else vs ! i)"
  proof (intro allI impI)
    fix i assume i: "i < length vs"
    show "vs' ! i = (if n \<le> i \<and> i < n + length (f # fs) then face_row verts ((f # fs) ! (i - n)) else vs ! i)"
    proof (cases "i = n")
      case True
      with vs'(3) i show ?thesis by simp
    next
      case False
      with vs'(3) i show ?thesis by (auto simp: nth_Cons' nth_list_update)
    qed
  qed
  with 1 vs'(1,2) show ?case by (simp add: enumerate_simps)
qed

text \<open>
  Claim C9. When every index of every face is an index into the vertex array, MeshWriter
  succeeds and hands over one triangle for each face, in the order of the faces; the
  \<open>j\<close>-th vertex of the \<open>i\<close>-th triangle is \<^verbatim>\<open>verts[faces[i][j]]\<close>, unchanged.
\<close>

theorem MeshWriter_writes_faces_in_order:
  assumes valid: "\<forall>f\<in>set faces. \<forall>j<3. \<not> isl (py_index verts (face_at f j))"
  shows "\<exists>vectors. MeshWriter verts faces = Inr vectors \<and> length vectors = length faces \<and>
           (\<forall>i<length faces. length (vectors ! i) = 3 \<and>
              (\<forall>j<3. py_index verts (face_at (faces ! i) j) = Inr (vectors ! i ! j)))"
proof -
  let ?zeros = "replicate (length faces) (replicate 3 (0, 0, 0)) :: vertex list list"
  have "0 + length faces \<le> length ?zeros" by simp
  moreover have "\<forall>i<length ?zeros. length (?zeros ! i) = 3" by simp
  ultimately obtain vs' where vs': "assign_faces verts (enumerate 0 faces) ?zeros = Inr vs'"
    "length vs' = length ?zeros"
    "\<forall>i<length ?zeros. vs' ! i = (if 0 \<le> i \<and> i < 0 + length faces then face_row verts (faces ! (i - 0)) else ?zeros ! i)"
    using assign_faces_ok [OF _ _ valid, of 0 ?zeros] by blast
  have "\<forall>i<length faces. length (vs' ! i) = 3 \<and>
              (\<forall>j<3. py_index verts (face_at (faces ! i) j) = Inr (vs' ! i ! j))"
  proof (intro allI impI)
    fix i assume i: "i < length faces"
    with vs'(3) have row: "vs' ! i = face_row verts (faces ! i)" by simp
    have "py_index verts (face_at (faces ! i) j) = Inr (vs' ! i ! j)" if "j < 3" for j
    proof -
      from valid i that have "\<not> isl (py_index verts (face_at (faces ! i) j))" by simp
      then have "py_index verts (face_at (faces ! i) j) = Inr (projr (py_index verts (face_at (faces ! i) j)))"
        by simp
      with that show ?thesis by (simp add: row face_row_def)
    qed
    with row show "length (vs' ! i) = 3 \<and>
              (\<forall>j<3. py_index verts (face_at (faces ! i) j) = Inr (vs' ! i ! j))"
      by (simp add: face_row_def)
  qed
  with vs'(1,2) show ?thesis by (simp add: MeshWriter_def)
qed

theorem MeshWriter_writes_faces_in_order_witness:
  "MeshWriter four_verts two_faces =
     Inr [[(0, 0, 0), (0, 4, 0), (4, 0, 0)], [(0, 0, 0), (4, 0, 0), (0, 0, 4)]] \<and>
   (\<exists>vectors. MeshWriter four_verts two_faces = Inr vectors \<and> length vectors = length two_faces \<and>
           (\<forall>i<length two_faces. length (vectors ! i) = 3 \<and>
              (\<forall>j<3. py_index four_verts (face_at (two_faces ! i) j) = Inr (vectors ! i ! j))))"
proof -
  have 1: "\<forall>f\<in>set two_faces. \<forall>j<3. \<not> isl (py_index four_verts (face_at f j))"
    by (simp add: two_faces_def four_verts_def py_index_def)
  have 2: "MeshWriter four_verts two_faces =
     Inr [[(0, 0, 0), (0, 4, 0), (4, 0, 0)], [(0, 0, 0), (4, 0, 0), (0, 0, 4)]]"
    by (simp add: MeshWriter_def two_faces_def four_verts_def py_index_def enumerate_simps upt_3
          numeral_3_eq_3 numeral_2_eq_2)
  show ?thesis
    by (rule conjI [OF 2 MeshWriter_writes_faces_in_order [OF 1]])
qed

section \<open>Properties of TopologyRepairer\<close>

subsection \<open>Arrays built from a rule\<close>

lemma shape3_tabulate3:
  "shape3 (tabulate3 (d, h, w) f) = (d, if d = 0 then 0 else h, if d = 0 \<or> h = 0 then 0 else w)"
  by (simp add: shape3_def tabulate3_def list.case_eq_if hd_map)

lemma in_bounds_shape3_tabulate3 [simp]:
  "in_bounds (shape3 (tabulate3 s f)) p = in_bounds s p"
  by (cases s; cases p) (auto simp: shape3_tabulate3 in_bounds_def)

lemma at3_tabulate3 [simp]:
  "at3 (tabulate3 s f) b p = (if in_bounds s p then f p else b)"
proof (cases "in_bounds s p")
  case False
  then show ?thesis by (simp add: at3_def)
next
  case True
  obtain d h w where s: "s = (d, h, w)" by (cases s) auto
  obtain z y x where p: "p = (z, y, x)" by (cases p) auto
  from True have "nat z < d" "nat y < h" "nat x < w" "0 \<le> z" "0 \<le> y" "0 \<le> x"
    by (auto simp: s p in_bounds_def)
  then have "tabulate3 s f ! nat z ! nat y ! nat x = f p"
    by (simp add: s p tabulate3_def)
  with True show ?thesis by (simp add: at3_def p)
qed

lemma tabulate3_cong:
  assumes "\<And>p. in_bounds s p \<Longrightarrow> f p = g p"
  shows "tabulate3 s f = tabulate3 s g"
proof -
  obtain d h w where s: "s = (d, h, w)" by (cases s) auto
  have "f (int z, int y, int x) = g (int z, int y, int x)" if "z < d" "y < h" "x < w" for z y x
    using that by (intro assms) (simp add: s in_bounds_def)
  then show ?thesis by (simp add: s tabulate3_def)
qed

lemma tabulate3_eq_iff:
  "tabulate3 s f = tabulate3 s g \<longleftrightarrow> (\<forall>p. in_bounds s p \<longrightarrow> f p = g p)"
proof
  assume eq: "tabulate3 s f = tabulate3 s g"
  show "\<forall>p. in_bounds s p \<longrightarrow> f p = g p"
  proof (intro allI impI)
    fix p assume p: "in_bounds s p"
    have "at3 (tabulate3 s f) (f p) p = at3 (tabulate3 s g) (f p) p" by (simp only: eq)
    with p show "f p = g p" by simp
  qed
next
  assume "\<forall>p. in_bounds s p \<longrightarrow> f p = g p"
  then show "tabulate3 s f = tabulate3 s g" by (intro tabulate3_cong) blast
qed

lemma map3_tabulate3: "map3 g (tabulate3 s f) = tabulate3 s (\<lambda>p. g (f p))"
  by (cases s) (simp add: map3_def tabulate3_def)

lemma tabulate3_shape3_tabulate3:
  "tabulate3 (shape3 (tabulate3 s f)) g = tabulate3 s g"
proof -
  obtain d h w where s: "s = (d, h, w)" by (cases s) auto
  consider "d = 0" | "0 < d" "h = 0" | "0 < d" "0 < h" by linarith
  then show ?thesis
  proof cases
    case 1
    then show ?thesis by (simp add: s shape3_tabulate3) (simp add: tabulate3_def)
  next
    case 2
    then show ?thesis by (simp add: s shape3_tabulate3) (simp add: tabulate3_def)
  next
    case 3
    then show ?thesis by (simp add: s shape3_tabulate3)
  qed
qed

subsection \<open>The flood of binary\_fill\_holes\<close>

text \<open>
  The flood stops, because every pass that changes the array marks at least one more of
  finitely many voxels; when it stops, the marked voxels are the reachable ones.
\<close>

lemma finite_in_bounds: "finite {p. in_bounds s p}"
proof -
  obtain d h w where s: "s = (d, h, w)" by (cases s) auto
  have "{p. in_bounds s p} \<subseteq> {0..<int d} \<times> {0..<int h} \<times> {0..<int w}"
    by (auto simp: s in_bounds_def)
  then show ?thesis by (rule finite_subset) simp
qed

lemma structure_1:
  "set (generate_binary_structure 1) =
     {(0, 0, 0), (- 1, 0, 0), (1, 0, 0), (0, - 1, 0), (0, 1, 0), (0, 0, - 1), (0, 0, 1)}"
  by (auto simp: generate_binary_structure_def)

lemma flood_pass_tabulate3:
  "dilation_step st (Some (map3 Not (tabulate3 s cf))) True (tabulate3 s f) =
     tabulate3 s (\<lambda>p. if \<not> cf p then (\<exists>q\<in>set st. in_bounds s (sub3 p q) \<longrightarrow> f (sub3 p q)) else f p)"
  unfolding dilation_step_def tabulate3_shape3_tabulate3
  by (rule tabulate3_cong) (auto simp: masked_def map3_tabulate3 list_ex_iff)

lemma reachable_tabulate3_boundary:
  "in_bounds s p \<Longrightarrow> \<not> cf p \<Longrightarrow> q \<in> set st \<Longrightarrow> \<not> in_bounds s (sub3 p q) \<Longrightarrow>
     reachable st (tabulate3 s cf) p"
  by (rule reachable.boundary [where q = q]) simp_all

lemma reachable_tabulate3_neighbour:
  "reachable st (tabulate3 s cf) (sub3 p q) \<Longrightarrow> q \<in> set st \<Longrightarrow> in_bounds s p \<Longrightarrow> \<not> cf p \<Longrightarrow>
     reachable st (tabulate3 s cf) p"
  by (rule reachable.neighbour [where q = q]) simp_all

lemma reachable_tabulate3D:
  "reachable st (tabulate3 s cf) p \<Longrightarrow> in_bounds s p \<and> \<not> cf p"
  by (induction rule: reachable.induct) simp_all

lemma flood_inv_init: "flood_inv st s cf (tabulate3 s (\<lambda>p. False))"
  unfolding flood_inv_def by (rule exI [where x = "\<lambda>p. False"]) simp

lemma flood_inv_pass:
  assumes "flood_inv st s cf v"
  shows "flood_inv st s cf (dilation_step st (Some (map3 Not (tabulate3 s cf))) True v)"
proof -
  from assms obtain f where v: "v = tabulate3 s f"
    and f: "\<And>p. in_bounds s p \<Longrightarrow> f p \<Longrightarrow> reachable st (tabulate3 s cf) p"
    unfolding flood_inv_def by blast
  let ?g = "\<lambda>p. if \<not> cf p then (\<exists>q\<in>set st. in_bounds s (sub3 p q) \<longrightarrow> f (sub3 p q)) else f p"
  have "reachable st (tabulate3 s cf) p" if p: "in_bounds s p" and g: "?g p" for p
  proof (cases "cf p")
    case True
    with g have "f p" by simp
    with p show ?thesis by (rule f)
  next
    case False
    with g obtain q where q: "q \<in> set st" "in_bounds s (sub3 p q) \<longrightarrow> f (sub3 p q)" by auto
    show ?thesis
    proof (cases "in_bounds s (sub3 p q)")
      case True
      with q have "reachable st (tabulate3 s cf) (sub3 p q)" by (simp add: f)
      then show ?thesis using q(1) p False by (rule reachable_tabulate3_neighbour)
    next
      case out: False
      from p False q(1) out show ?thesis by (rule reachable_tabulate3_boundary)
    qed
  qed
  then show ?thesis
    unfolding flood_inv_def v flood_pass_tabulate3 by blast
qed

lemma flood_pass_decreases:
  assumes inv: "flood_inv st s cf v" and centre: "(0, 0, 0) \<in> set st"
      and changed: "dilation_step st (Some (map3 Not (tabulate3 s cf))) True v \<noteq> v"
  shows "card {p. in_bounds s p \<and> \<not> at3 (dilation_step st (Some (map3 Not (tabulate3 s cf))) True v) False p}
       < card {p. in_bounds s p \<and> \<not> at3 v False p}"
proof -
  from inv obtain f where v: "v = tabulate3 s f" unfolding flood_inv_def by blast
  let ?g = "\<lambda>p. if \<not> cf p then (\<exists>q\<in>set st. in_bounds s (sub3 p q) \<longrightarrow> f (sub3 p q)) else f p"
  have ext: "?g p" if "in_bounds s p" "f p" for p
  proof (cases "cf p")
    case True
    with that show ?thesis by simp
  next
    case False
    have "sub3 p (0, 0, 0) = p" by (cases p) (simp add: sub3_def)
    with that have "in_bounds s (sub3 p (0, 0, 0)) \<longrightarrow> f (sub3 p (0, 0, 0))" by simp
    with centre have "\<exists>q\<in>set st. in_bounds s (sub3 p q) \<longrightarrow> f (sub3 p q)" by (rule rev_bexI)
    with False show ?thesis by simp
  qed
  from changed obtain p where p: "in_bounds s p" "?g p \<noteq> f p"
    unfolding v flood_pass_tabulate3 tabulate3_eq_iff by blast
  with ext have "?g p" "\<not> f p" by blast+
  with p(1) have "{p. in_bounds s p \<and> \<not> ?g p} \<subset> {p. in_bounds s p \<and> \<not> f p}"
    using ext by blast
  moreover have "finite {p. in_bounds s p \<and> \<not> f p}"
    using finite_in_bounds [of s] by simp
  ultimately have "card {p. in_bounds s p \<and> \<not> ?g p} < card {p. in_bounds s p \<and> \<not> f p}"
    by (rule psubset_card_mono [rotated])
  moreover have "{p. in_bounds s p \<and> \<not> at3 (tabulate3 s g) False p} = {p. in_bounds s p \<and> \<not> g p}"
    for g by auto
  ultimately show ?thesis
    unfolding v flood_pass_tabulate3 by simp
qed

lemma flood_fixpoint_complete:
  assumes fp: "dilation_step st (Some (map3 Not (tabulate3 s cf))) True (tabulate3 s f) = tabulate3 s f"
      and r: "reachable st (tabulate3 s cf) p"
  shows "f p"
  using r
proof (induction rule: reachable.induct)
  case (boundary p q)
  then have p: "in_bounds s p" "\<not> cf p" "q \<in> set st" "\<not> in_bounds s (sub3 p q)" by simp_all
  from fp p(1) have "(if \<not> cf p then (\<exists>q\<in>set st. in_bounds s (sub3 p q) \<longrightarrow> f (sub3 p q)) else f p) = f p"
    unfolding flood_pass_tabulate3 tabulate3_eq_iff by blast
  with p show ?case by auto
next
  case (neighbour p q)
  then have p: "in_bounds s p" "\<not> cf p" "q \<in> set st" "f (sub3 p q)" by simp_all
  from fp p(1) have "(if \<not> cf p then (\<exists>q\<in>set st. in_bounds s (sub3 p q) \<longrightarrow> f (sub3 p q)) else f p) = f p"
    unfolding flood_pass_tabulate3 tabulate3_eq_iff by blast
  with p show ?case by auto
qed

lemma binary_fill_holes_tabulate3:
  "\<exists>f. binary_fill_holes (tabulate3 s cf) = Some (tabulate3 s f) \<and>
       (\<forall>p. in_bounds s p \<longrightarrow> f p = (\<not> reachable (generate_binary_structure 1) (tabulate3 s cf) p))"
proof -
  let ?st = "generate_binary_structure 1"
  let ?c = "tabulate3 s cf"
  let ?pass = "dilation_step ?st (Some (map3 Not ?c)) True"
  let ?start = "tabulate3 s (\<lambda>p. False)"
  have centre: "(0, 0, 0) \<in> set ?st" unfolding structure_1 by simp
  have "\<exists>t. while_option (\<lambda>v. ?pass v \<noteq> v) ?pass ?start = Some t"
  proof (rule measure_while_option_Some
         [where P = "flood_inv ?st s cf" and f = "\<lambda>v. card {p. in_bounds s p \<and> \<not> at3 v False p}"])
    show "flood_inv ?st s cf ?start" by (rule flood_inv_init)
  next
    fix v assume "flood_inv ?st s cf v" and "?pass v \<noteq> v"
    then show "flood_inv ?st s cf (?pass v) \<and>
        card {p. in_bounds s p \<and> \<not> at3 (?pass v) False p} < card {p. in_bounds s p \<and> \<not> at3 v False p}"
      using flood_inv_pass flood_pass_decreases [OF _ centre] by blast
  qed
  then obtain t where t: "while_option (\<lambda>v. ?pass v \<noteq> v) ?pass ?start = Some t" by blast
  have "flood_inv ?st s cf t"
    by (rule while_option_rule [where P = "flood_inv ?st s cf", OF _ t])
       (blast intro: flood_inv_pass flood_inv_init)+
  then obtain f where f: "t = tabulate3 s f"
    and sound: "\<And>p. in_bounds s p \<Longrightarrow> f p \<Longrightarrow> reachable ?st ?c p"
    unfolding flood_inv_def by blast
  from while_option_stop [OF t] have fp: "?pass (tabulate3 s f) = tabulate3 s f" by (simp add: f)
  have "f p = reachable ?st ?c p" if "in_bounds s p" for p
    using that sound flood_fixpoint_complete [OF fp] by blast
  moreover have "binary_fill_holes ?c = Some (tabulate3 s (\<lambda>p. \<not> f p))"
    using t
    by (simp add: binary_fill_holes_def Let_def binary_dilation_def repeat_pass_def
          default_structure_def map3_tabulate3 tabulate3_shape3_tabulate3 f)
  ultimately show ?thesis by auto
qed

subsection \<open>Closing, voxel by voxel\<close>

lemma dilation_step_any:
  "dilation_step st None False v = tabulate3 (shape3 v) (dilated st (shape3 v) (at3 v False))"
  unfolding dilation_step_def
  by (rule tabulate3_cong) (auto simp: masked_def dilated_def list_ex_iff at3_def)

lemma dilation_step_tabulate3:
  "dilation_step st None False (tabulate3 s g) = tabulate3 s (dilated st s g)"
  unfolding dilation_step_def tabulate3_shape3_tabulate3
  by (rule tabulate3_cong) (auto simp: masked_def dilated_def list_ex_iff)

lemma erosion_step_tabulate3:
  "erosion_step st None False (tabulate3 s g) = tabulate3 s (eroded st s g)"
  unfolding erosion_step_def tabulate3_shape3_tabulate3
  by (rule tabulate3_cong) (auto simp: masked_def eroded_def list_all_iff)

lemma shape3_map3 [simp]: "shape3 (map3 f v) = shape3 v"
  by (auto simp: shape3_def map3_def split: list.splits)

lemma shape3_tabulate3_shape3 [simp]: "shape3 (tabulate3 (shape3 v) f) = shape3 v"
proof -
  obtain d h w where s: "shape3 v = (d, h, w)" by (cases "shape3 v") auto
  then have "d = 0 \<longrightarrow> h = 0 \<and> w = 0" "h = 0 \<longrightarrow> w = 0"
    by (auto simp: shape3_def split: list.splits)
  then show ?thesis by (auto simp: s shape3_tabulate3)
qed

lemma dilated_at3_tabulate3: "dilated st s (at3 (tabulate3 s g) False) = dilated st s g"
  by (auto simp: dilated_def fun_eq_iff)

lemma binary_closing_twice:
  "binary_closing v (Some st) 2 =
     Some (tabulate3 (shape3 v)
            (eroded st (shape3 v) (eroded st (shape3 v)
               (dilated st (shape3 v) (dilated st (shape3 v) (at3 v False))))))"
  by (simp add: binary_closing_def binary_dilation_def binary_erosion_def repeat_pass_def
        default_structure_def numeral_2_eq_2 dilation_step_any dilation_step_tabulate3
        erosion_step_tabulate3 dilated_at3_tabulate3)




lemma closed_volume_eq:
  "closed_volume volume = Some (tabulate3 (shape3 volume) (closed_pred volume))"
  by (simp add: closed_volume_def closed_pred_def close_iterations_def binary_closing_twice Let_def)

lemma astype_tabulate3:
  "map3 (\<lambda>b. if b then 1 else 0) (tabulate3 s f) = tabulate3 s (\<lambda>p. if f p then 1 else 0)"
  by (rule map3_tabulate3)

lemma cube_offsets:
  "set (concat (map (\<lambda>dz. concat (map (\<lambda>dy. map (\<lambda>dx. (dz, dy, dx)) C) C)) C)) = set C \<times> set C \<times> set C"
  by auto

lemma unit_interval: "i \<in> set [- 1, 0, 1] \<longleftrightarrow> - 1 \<le> i \<and> i \<le> 1" for i :: int
  by auto

lemma structure_mem:
  "(dz, dy, dx) \<in> set (generate_binary_structure c) \<longleftrightarrow>
     - 1 \<le> dz \<and> dz \<le> 1 \<and> - 1 \<le> dy \<and> dy \<le> 1 \<and> - 1 \<le> dx \<and> dx \<le> 1 \<and>
     nat (\<bar>dz\<bar> + \<bar>dy\<bar> + \<bar>dx\<bar>) \<le> c"
proof -
  have "(dz, dy, dx) \<in> set (generate_binary_structure c) \<longleftrightarrow>
      (dz, dy, dx) \<in> set [- 1, 0, 1] \<times> set [- 1, 0, 1] \<times> set [- 1, 0, 1] \<and>
      nat (\<bar>dz\<bar> + \<bar>dy\<bar> + \<bar>dx\<bar>) \<le> c"
    unfolding generate_binary_structure_def set_filter cube_offsets by simp
  also have "\<dots> \<longleftrightarrow> - 1 \<le> dz \<and> dz \<le> 1 \<and> - 1 \<le> dy \<and> dy \<le> 1 \<and> - 1 \<le> dx \<and> dx \<le> 1 \<and>
     nat (\<bar>dz\<bar> + \<bar>dy\<bar> + \<bar>dx\<bar>) \<le> c"
    unfolding mem_Times_iff fst_conv snd_conv unit_interval by blast
  finally show ?thesis .
qed

lemma structure_3:
  "(dz, dy, dx) \<in> set (generate_binary_structure 3) \<longleftrightarrow>
     - 1 \<le> dz \<and> dz \<le> 1 \<and> - 1 \<le> dy \<and> dy \<le> 1 \<and> - 1 \<le> dx \<and> dx \<le> 1"
  unfolding structure_mem by linarith

lemma dilatedI: "q \<in> set st \<Longrightarrow> in_bounds s (sub3 p q) \<Longrightarrow> g (sub3 p q) \<Longrightarrow> dilated st s g p"
  unfolding dilated_def by blast

lemma erodedI:
  "(\<And>q. q \<in> set st \<Longrightarrow> in_bounds s (add3 p q) \<and> g (add3 p q)) \<Longrightarrow> eroded st s g p"
  unfolding eroded_def by blast

lemma closing_extensive:
  assumes "g p" and "in_bounds s p"
      and "\<And>q1. q1 \<in> set st \<Longrightarrow> in_bounds s (add3 p q1)"
      and "\<And>q1 q2. q1 \<in> set st \<Longrightarrow> q2 \<in> set st \<Longrightarrow> in_bounds s (add3 (add3 p q1) q2)"
  shows "eroded st s (eroded st s (dilated st s (dilated st s g))) p"
proof -
  have sub_add: "sub3 (add3 a q) q = a" for a q by (cases a; cases q) (simp add: add3_def sub3_def)
  have d1: "dilated st s g (add3 p q1)" if "q1 \<in> set st" for q1
    by (rule dilatedI [of q1]) (simp_all add: sub_add that assms(1,2))
  have d2: "dilated st s (dilated st s g) (add3 (add3 p q1) q2)" if "q1 \<in> set st" "q2 \<in> set st" for q1 q2
    by (rule dilatedI [of q2]) (simp_all add: sub_add that d1 assms(3))
  have e1: "eroded st s (dilated st s (dilated st s g)) (add3 p q1)" if "q1 \<in> set st" for q1
    by (rule erodedI) (simp add: that d2 assms(4))
  show ?thesis
    by (rule erodedI) (simp add: e1 assms(3))
qed

lemma closing_background:
  assumes "eroded st s (eroded st s (dilated st s (dilated st s g))) p"
      and "q1 \<in> set st" and "q2 \<in> set st"
  shows "\<exists>q3\<in>set st. \<exists>q4\<in>set st. g (sub3 (sub3 (add3 (add3 p q1) q2) q3) q4)"
  using assms unfolding eroded_def dilated_def by blast

text \<open>
  Claim C2, amended. TopologyRepairer always returns. In its result every voxel that is
  foreground after the closing is foreground; a background voxel of the closed volume stays
  background when it is reachable from the outer boundary through background voxels that
  share a face (6-neighbour connectivity, the default structuring element of
  \<^verbatim>\<open>binary_fill_holes\<close>), and becomes foreground when it is not.
\<close>

theorem TopologyRepairer_fills_face_enclosed:
  "\<exists>c r. closed_volume volume = Some c \<and> TopologyRepairer volume = Some r \<and>
     shape3 c = shape3 volume \<and> shape3 r = shape3 volume \<and>
     (\<forall>p. in_bounds (shape3 volume) p \<longrightarrow>
        (if at3 c False p then at3 r 0 p = 1
         else if reachable (generate_binary_structure 1) c p then at3 r 0 p = 0
         else at3 r 0 p = 1))"
proof -
  let ?s = "shape3 volume"
  let ?c = "tabulate3 ?s (closed_pred volume)"
  obtain f where fill: "binary_fill_holes ?c = Some (tabulate3 ?s f)"
    and f: "\<And>p. in_bounds ?s p \<Longrightarrow> f p = (\<not> reachable (generate_binary_structure 1) ?c p)"
    using binary_fill_holes_tabulate3 [of ?s "closed_pred volume"] by blast
  let ?r = "tabulate3 ?s (\<lambda>p. if f p then 1 else 0 :: uint8)"
  have r: "TopologyRepairer volume = Some ?r"
    by (simp add: TopologyRepairer_def closed_volume_eq fill astype_tabulate3)
  have main: "if at3 ?c False p then at3 ?r 0 p = 1
         else if reachable (generate_binary_structure 1) ?c p then at3 ?r 0 p = 0
         else at3 ?r 0 p = 1" if p: "in_bounds ?s p" for p
  proof (cases "reachable (generate_binary_structure 1) ?c p")
    case True
    from reachable_tabulate3D [OF True] have "\<not> closed_pred volume p" by simp
    with True p f [OF p] show ?thesis by simp
  next
    case False
    with p f [OF p] show ?thesis by simp
  qed
  show ?thesis
  proof (intro exI conjI)
    show "closed_volume volume = Some ?c" by (rule closed_volume_eq)
    show "TopologyRepairer volume = Some ?r" by (rule r)
    show "shape3 ?c = shape3 volume" by simp
    show "shape3 ?r = shape3 volume" by simp
    show "\<forall>p. in_bounds (shape3 volume) p \<longrightarrow>
        (if at3 ?c False p then at3 ?r 0 p = 1
         else if reachable (generate_binary_structure 1) ?c p then at3 ?r 0 p = 0
         else at3 ?r 0 p = 1)"
      using main by blast
  qed
qed

theorem TopologyRepairer_fills_face_enclosed_witness:
  "\<exists>c r. closed_volume box_volume = Some c \<and> TopologyRepairer box_volume = Some r \<and>
     shape3 c = shape3 box_volume \<and> shape3 r = shape3 box_volume \<and>
     (if at3 c False (5, 5, 5) then at3 r 0 (5, 5, 5) = 1
      else if reachable (generate_binary_structure 1) c (5, 5, 5) then at3 r 0 (5, 5, 5) = 0
      else at3 r 0 (5, 5, 5) = 1)"
proof -
  have inb: "in_bounds (shape3 box_volume) (5, 5, 5)"
    by (simp add: box_volume_def shape3_tabulate3 in_bounds_def)
  from TopologyRepairer_fills_face_enclosed [of box_volume] inb show ?thesis by blast
qed

subsection \<open>A cavity that leaks through a corner\<close>

lemma shape3_box_volume: "shape3 box_volume = (11, 11, 11)"
  by (simp add: box_volume_def shape3_tabulate3)

lemma at3_box_volume:
  "at3 (map3 (\<lambda>v. v \<noteq> 0) box_volume) False p \<longleftrightarrow> in_bounds (11, 11, 11) p \<and> box_shell p"
  by (simp add: box_volume_def map3_tabulate3)

lemma closed_pred_box:
  "closed_pred box_volume =
     eroded (generate_binary_structure 3) (11, 11, 11) (eroded (generate_binary_structure 3) (11, 11, 11)
       (dilated (generate_binary_structure 3) (11, 11, 11) (dilated (generate_binary_structure 3) (11, 11, 11)
          (\<lambda>p. in_bounds (11, 11, 11) p \<and> box_shell p))))"
proof -
  have "at3 (map3 (\<lambda>v. v \<noteq> 0) box_volume) False = (\<lambda>p. in_bounds (11, 11, 11) p \<and> box_shell p)"
    by (rule ext) (simp add: at3_box_volume)
  then show ?thesis by (simp add: closed_pred_def shape3_box_volume Let_def)
qed

lemma box_shell_closed:
  assumes "box_shell p"
  shows "closed_pred box_volume p"
  unfolding closed_pred_box
proof (rule closing_extensive)
  obtain z y x where p: "p = (z, y, x)" by (cases p) auto
  from assms show "in_bounds (11, 11, 11) p \<and> box_shell p" "in_bounds (11, 11, 11) p"
    by (auto simp: p box_shell_def in_bounds_def)
  show "in_bounds (11, 11, 11) (add3 p q1)" if "q1 \<in> set (generate_binary_structure 3)" for q1
  proof -
    obtain a b c where "q1 = (a, b, c)" by (cases q1) auto
    with that assms show ?thesis
      by (auto simp: p structure_3 box_shell_def in_bounds_def add3_def)
  qed
  show "in_bounds (11, 11, 11) (add3 (add3 p q1) q2)"
    if "q1 \<in> set (generate_binary_structure 3)" "q2 \<in> set (generate_binary_structure 3)" for q1 q2
  proof -
    obtain a b c a' b' c' where "q1 = (a, b, c)" "q2 = (a', b', c')" by (cases q1; cases q2) auto
    with that assms show ?thesis
      by (auto simp: p structure_3 box_shell_def in_bounds_def add3_def)
  qed
qed

lemma box_open_near:
  assumes q1: "q1 \<in> set (generate_binary_structure 3)" and q2: "q2 \<in> set (generate_binary_structure 3)"
      and far: "add3 (add3 p q1) q2 = (5, 5, 5) \<or> add3 (add3 p q1) q2 = (10, 10, 10)"
  shows "\<not> closed_pred box_volume p"
proof
  assume "closed_pred box_volume p"
  from closing_background [OF this [unfolded closed_pred_box] q1 q2]
  obtain q3 q4 where q3: "q3 \<in> set (generate_binary_structure 3)"
    and q4: "q4 \<in> set (generate_binary_structure 3)"
    and shell: "box_shell (sub3 (sub3 (add3 (add3 p q1) q2) q3) q4)"
    by blast
  obtain a b c a' b' c' where "q3 = (a, b, c)" "q4 = (a', b', c')" by (cases q3; cases q4) auto
  with far q3 q4 shell show False
    by (auto simp: structure_3 box_shell_def sub3_def)
qed

lemma box_diagonal_open:
  "\<not> closed_pred box_volume (5, 5, 5)" "\<not> closed_pred box_volume (6, 6, 6)"
  "\<not> closed_pred box_volume (7, 7, 7)" "\<not> closed_pred box_volume (8, 8, 8)"
  "\<not> closed_pred box_volume (9, 9, 9)" "\<not> closed_pred box_volume (10, 10, 10)"
proof -
  have st: "(0, 0, 0) \<in> set (generate_binary_structure 3)"
    "(1, 1, 1) \<in> set (generate_binary_structure 3)"
    "(- 1, - 1, - 1) \<in> set (generate_binary_structure 3)"
    by (simp_all add: structure_3)
  show "\<not> closed_pred box_volume (5, 5, 5)"
    by (rule box_open_near [OF st(1) st(1)]) (simp add: add3_def)
  show "\<not> closed_pred box_volume (6, 6, 6)"
    by (rule box_open_near [OF st(3) st(1)]) (simp add: add3_def)
  show "\<not> closed_pred box_volume (7, 7, 7)"
    by (rule box_open_near [OF st(3) st(3)]) (simp add: add3_def)
  show "\<not> closed_pred box_volume (8, 8, 8)"
    by (rule box_open_near [OF st(2) st(2)]) (simp add: add3_def)
  show "\<not> closed_pred box_volume (9, 9, 9)"
    by (rule box_open_near [OF st(2) st(1)]) (simp add: add3_def)
  show "\<not> closed_pred box_volume (10, 10, 10)"
    by (rule box_open_near [OF st(1) st(1)]) (simp add: add3_def)
qed

lemma structure_1_mem:
  "(dz, dy, dx) \<in> set (generate_binary_structure 1) \<longleftrightarrow>
     - 1 \<le> dz \<and> dz \<le> 1 \<and> - 1 \<le> dy \<and> dy \<le> 1 \<and> - 1 \<le> dx \<and> dx \<le> 1 \<and>
     \<bar>dz\<bar> + \<bar>dy\<bar> + \<bar>dx\<bar> \<le> 1"
  unfolding structure_mem by linarith

lemma box_diagonal_reachable:
  "reachable (generate_binary_structure 3) (tabulate3 (11, 11, 11) (closed_pred box_volume)) (5, 5, 5)"
proof -
  let ?R = "reachable (generate_binary_structure 3) (tabulate3 (11, 11, 11) (closed_pred box_volume))"
  have q: "(- 1, - 1, - 1) \<in> set (generate_binary_structure 3)" by (simp add: structure_3)
  have "?R (10, 10, 10)"
    by (rule reachable_tabulate3_boundary [where q = "(- 1, - 1, - 1)"])
       (simp_all add: in_bounds_def sub3_def box_diagonal_open(6) q)
  then have "?R (sub3 (9, 9, 9) (- 1, - 1, - 1))" by (simp add: sub3_def)
  then have "?R (9, 9, 9)"
    by (rule reachable_tabulate3_neighbour [where q = "(- 1, - 1, - 1)"])
       (simp_all add: in_bounds_def box_diagonal_open(5) q)
  then have "?R (sub3 (8, 8, 8) (- 1, - 1, - 1))" by (simp add: sub3_def)
  then have "?R (8, 8, 8)"
    by (rule reachable_tabulate3_neighbour [where q = "(- 1, - 1, - 1)"])
       (simp_all add: in_bounds_def box_diagonal_open(4) q)
  then have "?R (sub3 (7, 7, 7) (- 1, - 1, - 1))" by (simp add: sub3_def)
  then have "?R (7, 7, 7)"
    by (rule reachable_tabulate3_neighbour [where q = "(- 1, - 1, - 1)"])
       (simp_all add: in_bounds_def box_diagonal_open(3) q)
  then have "?R (sub3 (6, 6, 6) (- 1, - 1, - 1))" by (simp add: sub3_def)
  then have "?R (6, 6, 6)"
    by (rule reachable_tabulate3_neighbour [where q = "(- 1, - 1, - 1)"])
       (simp_all add: in_bounds_def box_diagonal_open(2) q)
  then have "?R (sub3 (5, 5, 5) (- 1, - 1, - 1))" by (simp add: sub3_def)
  then show "?R (5, 5, 5)"
    by (rule reachable_tabulate3_neighbour [where q = "(- 1, - 1, - 1)"])
       (simp_all add: in_bounds_def box_diagonal_open(1) q)
qed

lemma box_cavity_step:
  assumes "box_cavity p" and "q \<in> set (generate_binary_structure 1)" and "\<not> box_cavity (sub3 p q)"
  shows "box_shell (sub3 p q)"
proof -
  obtain z y x a b c where p: "p = (z, y, x)" and q: "q = (a, b, c)" by (cases p; cases q) auto
  from assms(2) have "- 1 \<le> a \<and> a \<le> 1 \<and> - 1 \<le> b \<and> b \<le> 1 \<and> - 1 \<le> c \<and> c \<le> 1 \<and>
     \<bar>a\<bar> + \<bar>b\<bar> + \<bar>c\<bar> \<le> 1"
    unfolding q structure_1_mem .
  with assms(1,3) show ?thesis
    unfolding p q box_cavity_def box_shell_def sub3_def prod.case by linarith
qed

lemma box_cavity_inside:
  assumes "box_cavity p" and "q \<in> set (generate_binary_structure 1)"
  shows "in_bounds (11, 11, 11) (sub3 p q)"
proof -
  obtain z y x a b c where p: "p = (z, y, x)" and q: "q = (a, b, c)" by (cases p; cases q) auto
  from assms(2) have "- 1 \<le> a \<and> a \<le> 1 \<and> - 1 \<le> b \<and> b \<le> 1 \<and> - 1 \<le> c \<and> c \<le> 1 \<and>
     \<bar>a\<bar> + \<bar>b\<bar> + \<bar>c\<bar> \<le> 1"
    unfolding q structure_1_mem .
  with assms(1) show ?thesis
    unfolding p q box_cavity_def in_bounds_def sub3_def prod.case by simp
qed

lemma box_cavity_unreachable:
  assumes "reachable (generate_binary_structure 1) (tabulate3 (11, 11, 11) (closed_pred box_volume)) p"
  shows "\<not> box_cavity p"
  using assms
proof (induction rule: reachable.induct)
  case (boundary p q)
  then show ?case using box_cavity_inside [of p q] by auto
next
  case (neighbour p q)
  show ?case
  proof
    assume "box_cavity p"
    with neighbour have "box_shell (sub3 p q)" by (intro box_cavity_step) simp_all
    then have "closed_pred box_volume (sub3 p q)" by (rule box_shell_closed)
    with reachable_tabulate3D [OF neighbour.hyps(1)] show False by simp
  qed
qed

text \<open>
  Against claim C2 as the spec words it: the hollow box with one corner voxel left out is
  unchanged by the closing around its cavity. Under 26-neighbour connectivity the centre
  (5, 5, 5) of the cavity is reachable from the outer boundary, along the diagonal through
  the open corner, yet TopologyRepairer makes it foreground: the flood of
  \<^verbatim>\<open>binary_fill_holes\<close> moves through faces only.
\<close>

theorem TopologyRepairer_fills_diagonally_open_cavity:
  "\<exists>c r. closed_volume box_volume = Some c \<and> TopologyRepairer box_volume = Some r \<and>
     in_bounds (shape3 box_volume) (5, 5, 5) \<and> \<not> at3 c False (5, 5, 5) \<and>
     reachable (generate_binary_structure 3) c (5, 5, 5) \<and> at3 r 0 (5, 5, 5) = 1"
proof -
  let ?c = "tabulate3 (11, 11, 11) (closed_pred box_volume)"
  have c: "closed_volume box_volume = Some ?c"
    using closed_volume_eq [of box_volume] by (simp add: shape3_box_volume)
  obtain f where fill: "binary_fill_holes ?c = Some (tabulate3 (11, 11, 11) f)"
    and f: "\<And>p. in_bounds (11, 11, 11) p \<Longrightarrow> f p = (\<not> reachable (generate_binary_structure 1) ?c p)"
    using binary_fill_holes_tabulate3 [of "(11, 11, 11)" "closed_pred box_volume"] by blast
  let ?r = "tabulate3 (11, 11, 11) (\<lambda>p. if f p then 1 else 0 :: uint8)"
  have r: "TopologyRepairer box_volume = Some ?r"
    by (simp add: TopologyRepairer_def c fill astype_tabulate3)
  have inb: "in_bounds (11, 11, 11) (5, 5, 5)" by (simp add: in_bounds_def)
  have "box_cavity (5, 5, 5)" by (simp add: box_cavity_def)
  with box_cavity_unreachable have "\<not> reachable (generate_binary_structure 1) ?c (5, 5, 5)" by blast
  with f [OF inb] have "f (5, 5, 5)" by simp
  with inb have filled: "at3 ?r 0 (5, 5, 5) = 1" by simp
  from inb box_diagonal_open(1) have bg: "\<not> at3 ?c False (5, 5, 5)" by simp
  show ?thesis
  proof (intro exI conjI)
    show "closed_volume box_volume = Some ?c" by (rule c)
    show "TopologyRepairer box_volume = Some ?r" by (rule r)
    show "in_bounds (shape3 box_volume) (5, 5, 5)" by (simp add: shape3_box_volume inb)
    show "\<not> at3 ?c False (5, 5, 5)" by (rule bg)
    show "reachable (generate_binary_structure 3) ?c (5, 5, 5)" by (rule box_diagonal_reachable)
    show "at3 ?r 0 (5, 5, 5) = 1" by (rule filled)
  qed
qed

end
